theory Spec2Isabelle
  imports Main "HOL-Library.AList"
begin

section \<open>Overview\<close>

text \<open>
  A model of \<^verbatim>\<open>main.js\<close>, the bot that keeps a connection to the messaging service: the
  credential store under \<^verbatim>\<open>AUTH_DIR\<close>, the session provider \<^verbatim>\<open>getAuthState\<close>, the
  supervisor \<^verbatim>\<open>startBot\<close> with its handlers, and the message handler.

  The state of the module and of what it acts on is one record, passed through every
  function. What the program cannot decide is part of that record or a parameter: the
  replies of the manager, the failures of the file system, the settings, and the two
  library functions that read and write the auth state. Exceptions are results
  (\<open>Thrown\<close>, \<open>Threw\<close>), and an \<^verbatim>\<open>await\<close> that never resumes is the result \<open>Pending\<close>.

  The file system decides what a write and a removal do: whether they throw and what they
  leave behind, and which file a name stands for. File names go through \<^verbatim>\<open>path.join\<close>
  (POSIX), so that two names can be one file and a name can lead out of \<^verbatim>\<open>AUTH_DIR\<close>.

  Taken as given: a handler, and \<^verbatim>\<open>startBot\<close>, runs to its end before anything else runs;
  the calls made on a socket, \<^verbatim>\<open>makeWASocket\<close> and \<^verbatim>\<open>fetchLatestBaileysVersion\<close> do not
  throw; strings are lists of code units below 256.
\<close>

section \<open>Values parsed from the session manager's reply\<close>

text \<open>
  The body of the manager's reply is whatever \<^verbatim>\<open>axios\<close> hands back as \<^verbatim>\<open>data\<close>: a value
  parsed from JSON, or the raw text when the body is not JSON. \<open>JObj\<close> lists the
  properties of an object in the order \<^verbatim>\<open>Object.entries\<close> enumerates them; \<open>JUndefined\<close>
  is the value of a property that is not there. Numbers are kept as integers: the program
  only tests a number for being zero. Strings are lists of code units.
\<close>

datatype json =
    JUndefined
  | JNull
  | JBool bool
  | JNum int
  | JStr string
  | JArr "json list"
  | JObj "(string \<times> json) list"

text \<open>JavaScript truthiness, as \<^verbatim>\<open>while (!files)\<close> tests it.\<close>

fun truthy :: "json \<Rightarrow> bool" where
  "truthy JUndefined = False"
| "truthy JNull = False"
| "truthy (JBool b) = b"
| "truthy (JNum n) = (n \<noteq> 0)"
| "truthy (JStr s) = (s \<noteq> [])"
| "truthy (JArr xs) = True"
| "truthy (JObj kvs) = True"

text \<open>
  \<^verbatim>\<open>data.files\<close>: reading a property of \<^verbatim>\<open>null\<close> or \<^verbatim>\<open>undefined\<close> throws a TypeError
  (\<open>None\<close>); an object gives the property or \<^verbatim>\<open>undefined\<close>; a string, number, boolean or
  array has no property of that name.
\<close>

fun prop_files :: "json \<Rightarrow> json option" where
  "prop_files JUndefined = None"
| "prop_files JNull = None"
| "prop_files (JObj kvs) =
     (case map_of kvs ''files'' of None \<Rightarrow> Some JUndefined | Some v \<Rightarrow> Some v)"
| "prop_files d = Some JUndefined"

text \<open>The decimal name of an index, as \<^verbatim>\<open>Object.entries\<close> names the elements of an array.\<close>

fun show_nat :: "nat \<Rightarrow> string" where
  "show_nat n =
     (if n < 10 then [char_of (48 + n)]
      else show_nat (n div 10) @ [char_of (48 + n mod 10)])"

declare show_nat.simps [simp del]

text \<open>
  \<^verbatim>\<open>Object.entries(files)\<close>: the own properties of an object, the indexed elements of an
  array or of a string, nothing for a number or a boolean, a TypeError (\<open>None\<close>) for
  \<^verbatim>\<open>null\<close> and \<^verbatim>\<open>undefined\<close>.
\<close>

fun Object_entries :: "json \<Rightarrow> (string \<times> json) list option" where
  "Object_entries JUndefined = None"
| "Object_entries JNull = None"
| "Object_entries (JBool b) = Some []"
| "Object_entries (JNum n) = Some []"
| "Object_entries (JStr s) = Some (zip (map show_nat [0..<length s]) (map (\<lambda>c. JStr [c]) s))"
| "Object_entries (JArr xs) = Some (zip (map show_nat [0..<length xs]) xs)"
| "Object_entries (JObj kvs) = Some kvs"

text \<open>
  One call of \<^verbatim>\<open>axios.get\<close>: it rejects (no connection, a status outside 2xx), or it
  resolves with a body.
\<close>

datatype response = NetError | Body json

section \<open>Settings\<close>

text \<open>
  The constants imported from the module \<^verbatim>\<open>settings.js\<close>, as far as the program reads
  them: they are parameters of the model. Intervals are in milliseconds.
\<close>

record config =
  SESSION_ID :: string
  SESSION_RETRY_INTERVAL :: nat
  RECONNECT_INTERVAL :: nat
  PREFIX :: string
  OWNER_NUMBER :: string
  AUTO_READ :: bool
  AUTO_TYPING :: bool

section \<open>The world the program runs in\<close>

text \<open>
  The console keeps which statement printed, not the interpolated text.
\<close>

datatype log_line =
    LogFetching
  | ErrFetch
  | LogSaved
  | ErrSave
  | LogUsingLocal
  | LogRetrying
  | LogConnected
  | LogDisconnected
  | LogLoggedOut
  | LogReconnecting
  | LogIncoming
  | ErrUnhandledRejection
  | LogStarting

text \<open>The three message templates the program sends.\<close>

datatype outgoing = StartupNotice | Pong | AliveInfo

record msgkey =
  remoteJid :: string
  fromMe :: bool
  msg_id :: string

text \<open>
  What the program asks of the connection handle held in \<^verbatim>\<open>sock\<close>: the first component
  is the handle the call went through.
\<close>

datatype action =
    SendMessage nat string outgoing "msgkey option"
  | ReadMessages nat msgkey
  | SendPresenceUpdate nat string string

text \<open>
  What the file system does, which the program cannot decide.
  \<^item> \<open>mkdir_fails\<close>: whether \<^verbatim>\<open>mkdirSync\<close> throws.
  \<^item> \<open>fs_write filename s\<close>: what \<^verbatim>\<open>writeFileSync\<close> of the text \<open>s\<close> to
    \<^verbatim>\<open>path.join(AUTH_DIR, filename)\<close> does: the text is stored; or the call throws and leaves the
    file as it was (it could not be opened); or the call throws after the file was created
    or truncated, leaving it with some text.
  \<^item> \<open>fs_rm d\<close>: what \<^verbatim>\<open>rmSync\<close> does to the directory with the files \<open>d\<close>: \<open>None\<close> when
    it removes the directory, else it throws and these files are left.
  \<^item> \<open>fs_name\<close>: the file a name inside the directory stands for (itself, on a file system
    that tells all names apart).
\<close>

datatype write_result = Stored | Refused | Broken string

record filesys =
  mkdir_fails :: bool
  fs_write :: "string \<Rightarrow> string \<Rightarrow> write_result"
  fs_rm :: "(string \<times> string) list \<Rightarrow> (string \<times> string) list option"
  fs_name :: "string \<Rightarrow> string"

text \<open>
  \<open>auth_dir\<close> is the directory \<^verbatim>\<open>AUTH_DIR\<close>: \<open>None\<close> when it does not exist, else the
  files directly inside it, each with its text. \<open>fsys\<close> is the file system. \<open>net\<close> holds the
  manager's coming replies, one per request; when it is empty a request is never answered. \<open>gets\<close>
  counts the requests issued and \<open>sleeps\<close> lists the delays awaited inside
  \<^verbatim>\<open>getAuthState\<close>. \<open>handles\<close> lists the connection handles made so far, each with the
  auth state it was made from; a handle is its index. \<open>timers\<close> lists the delays of the
  pending \<^verbatim>\<open>setTimeout(() => startBot(), d)\<close> calls. \<open>outbox\<close> lists the calls made on
  handles.
\<close>

record 'a world =
  auth_dir :: "(string \<times> string) list option"
  fsys :: filesys
  net :: "response list"
  gets :: nat
  sleeps :: "nat list"
  console :: "log_line list"
  isFirstConnect :: bool
  sock :: "nat option"
  handles :: "'a list"
  timers :: "nat list"
  outbox :: "action list"

definition console_log :: "log_line \<Rightarrow> 'a world \<Rightarrow> 'a world" where
  "console_log l w = w\<lparr>console := console w @ [l]\<rparr>"

text \<open>How a block of statements ends: normally, or by a thrown exception.\<close>

datatype completion = Normal | Thrown

text \<open>Sequencing of statements: an exception skips what follows.\<close>

definition and_then ::
  "completion \<times> 'a world \<Rightarrow> ('a world \<Rightarrow> completion \<times> 'a world) \<Rightarrow> completion \<times> 'a world" where
  "and_then r f = (case r of (Thrown, w) \<Rightarrow> (Thrown, w) | (Normal, w) \<Rightarrow> f w)"

text \<open>How an asynchronous function ends: it returns, it rejects, or it never resumes.\<close>

datatype 'r outcome = Returned 'r | Threw string | Pending

section \<open>Credential store\<close>

text \<open>
  \<^verbatim>\<open>fetchSessionFromManager\<close>, given what \<^verbatim>\<open>axios.get\<close> does: the value returned
  (\<^verbatim>\<open>null\<close> from the catch block).
\<close>

definition fetchSessionFromManager :: "response \<Rightarrow> 'a world \<Rightarrow> json \<times> 'a world" where
  "fetchSessionFromManager r w =
     (let w1 = (console_log LogFetching w)\<lparr>gets := Suc (gets w)\<rparr> in
      case r of
        NetError \<Rightarrow> (JNull, console_log ErrFetch w1)
      | Body d \<Rightarrow>
          (case prop_files d of
             None \<Rightarrow> (JNull, console_log ErrFetch w1)
           | Some v \<Rightarrow> (v, w1)))"

subsection \<open>File names\<close>

text \<open>\<^verbatim>\<open>p.split('/')\<close>\<close>

fun split_slash :: "string \<Rightarrow> string list" where
  "split_slash [] = [[]]"
| "split_slash (c # cs) =
     (if c = CHR ''/'' then [] # split_slash cs
      else (case split_slash cs of [] \<Rightarrow> [[c]] | t # ts \<Rightarrow> (c # t) # ts))"

text \<open>
  \<^verbatim>\<open>path.normalize\<close> on a relative path, segment by segment, the segments kept so far last
  first: an empty segment and \<^verbatim>\<open>.\<close> are dropped, \<^verbatim>\<open>..\<close> takes the segment before it away, or
  stays when there is none to take.
\<close>

definition norm_step :: "string list \<Rightarrow> string \<Rightarrow> string list" where
  "norm_step st seg =
     (if seg = [] \<or> seg = ''.'' then st
      else if seg = ''..'' then
        (case st of [] \<Rightarrow> [''..''] | t # ts \<Rightarrow> if t = ''..'' then ''..'' # st else ts)
      else seg # st)"

definition path_normalize :: "string \<Rightarrow> string list" where
  "path_normalize p = rev (foldl norm_step [] (split_slash p))"

text \<open>\<^verbatim>\<open>const AUTH_DIR = `./bot_session/${SESSION_ID}`\<close>\<close>

definition AUTH_DIR :: "config \<Rightarrow> string" where
  "AUTH_DIR cfg = ''./bot_session/'' @ SESSION_ID cfg"

text \<open>
  \<^verbatim>\<open>path.join(AUTH_DIR, filename)\<close>, as the segments of the normalized path and whether it
  ends with a separator. An empty \<open>filename\<close> is left out of the join.
\<close>

definition path_join :: "string \<Rightarrow> string \<Rightarrow> string list \<times> bool" where
  "path_join dir filename =
     (let p = (if filename = [] then dir else dir @ ''/'' @ filename)
      in (path_normalize p, p \<noteq> [] \<and> last p = CHR ''/''))"

text \<open>
  The name, inside \<^verbatim>\<open>AUTH_DIR\<close>, of the file \<^verbatim>\<open>path.join(AUTH_DIR, filename)\<close> when that path
  is a file directly inside \<^verbatim>\<open>AUTH_DIR\<close>; \<open>None\<close> when it is the directory itself, lies in a
  directory below it or outside it, or ends with a separator.
\<close>

definition plain_file :: "config \<Rightarrow> string \<Rightarrow> string option" where
  "plain_file cfg filename =
     (case path_join (AUTH_DIR cfg) filename of
        (segs, trailing) \<Rightarrow>
          if \<not> trailing \<and> segs \<noteq> [] \<and> butlast segs = path_normalize (AUTH_DIR cfg) \<and> last segs \<noteq> ''..''
          then Some (last segs) else None)"

text \<open>The file of the directory that a file name stands for on this file system.\<close>

definition file_key :: "config \<Rightarrow> 'a world \<Rightarrow> string \<Rightarrow> string option" where
  "file_key cfg w filename = map_option (fs_name (fsys w)) (plain_file cfg filename)"

subsection \<open>Reading and writing\<close>

text \<open>
  The file \<^verbatim>\<open>path.join(AUTH_DIR, filename)\<close> gets the text \<open>t\<close>: a change of the directory when
  the path is a file directly inside it.
\<close>

definition put_file :: "config \<Rightarrow> string \<Rightarrow> string \<Rightarrow> 'a world \<Rightarrow> 'a world" where
  "put_file cfg filename t w =
     (case (file_key cfg w filename, auth_dir w) of
        (Some k, Some d) \<Rightarrow> w\<lparr>auth_dir := Some (AList.update k t d)\<rparr>
      | _ \<Rightarrow> w)"

text \<open>
  \<^verbatim>\<open>fs.writeFileSync(path.join(AUTH_DIR, filename), content, 'utf-8')\<close>. Content that is not a
  string is refused with a TypeError before the file is touched. A file directly inside a
  directory that does not exist cannot be opened. Else the file system decides.
\<close>

definition writeFileSync :: "config \<Rightarrow> string \<Rightarrow> json \<Rightarrow> 'a world \<Rightarrow> completion \<times> 'a world" where
  "writeFileSync cfg filename content w =
     (case content of
        JStr s \<Rightarrow>
          if plain_file cfg filename \<noteq> None \<and> auth_dir w = None then (Thrown, w)
          else
            (case fs_write (fsys w) filename s of
               Stored \<Rightarrow> (Normal, put_file cfg filename s w)
             | Refused \<Rightarrow> (Thrown, w)
             | Broken t \<Rightarrow> (Thrown, put_file cfg filename t w))
      | _ \<Rightarrow> (Thrown, w))"

text \<open>The \<^verbatim>\<open>for\<close> loop of \<^verbatim>\<open>saveSessionLocally\<close>: an exception leaves the loop.\<close>

fun write_entries :: "config \<Rightarrow> (string \<times> json) list \<Rightarrow> 'a world \<Rightarrow> completion \<times> 'a world" where
  "write_entries cfg [] w = (Normal, w)"
| "write_entries cfg ((filename, content) # es) w =
     (case writeFileSync cfg filename content w of
        (Thrown, w1) \<Rightarrow> (Thrown, w1)
      | (Normal, w1) \<Rightarrow> write_entries cfg es w1)"

text \<open>\<^verbatim>\<open>if (!fs.existsSync(AUTH_DIR)) fs.mkdirSync(AUTH_DIR, { recursive: true })\<close>\<close>

definition ensure_dir :: "'a world \<Rightarrow> completion \<times> 'a world" where
  "ensure_dir w =
     (if auth_dir w = None
      then (if mkdir_fails (fsys w) then (Thrown, w) else (Normal, w\<lparr>auth_dir := Some []\<rparr>))
      else (Normal, w))"

text \<open>The body of the \<^verbatim>\<open>try\<close> block of \<^verbatim>\<open>saveSessionLocally\<close>.\<close>

definition save_try :: "config \<Rightarrow> json \<Rightarrow> 'a world \<Rightarrow> completion \<times> 'a world" where
  "save_try cfg files w =
     (case ensure_dir w of
        (Thrown, w1) \<Rightarrow> (Thrown, w1)
      | (Normal, w1) \<Rightarrow>
          (case Object_entries files of
             None \<Rightarrow> (Thrown, w1)
           | Some es \<Rightarrow>
               (case write_entries cfg es w1 of
                  (Thrown, w2) \<Rightarrow> (Thrown, w2)
                | (Normal, w2) \<Rightarrow> (Normal, console_log LogSaved w2))))"

definition saveSessionLocally :: "config \<Rightarrow> json \<Rightarrow> 'a world \<Rightarrow> 'a world" where
  "saveSessionLocally cfg files w =
     (case save_try cfg files w of
        (Thrown, w1) \<Rightarrow> console_log ErrSave w1
      | (Normal, w1) \<Rightarrow> w1)"

text \<open>\<^verbatim>\<open>fs.existsSync(path.join(AUTH_DIR, 'creds.json'))\<close>\<close>

definition hasLocalSession :: "config \<Rightarrow> 'a world \<Rightarrow> bool" where
  "hasLocalSession cfg w =
     (case (file_key cfg w ''creds.json'', auth_dir w) of
        (Some k, Some d) \<Rightarrow> map_of d k \<noteq> None
      | _ \<Rightarrow> False)"

section \<open>Session provider\<close>

text \<open>
  \<^verbatim>\<open>useMultiFileAuthState\<close> belongs to the messaging library: \<open>load\<close> stands for it, from
  the directory's content to the auth state or the message of the error it throws.
\<close>

definition useMultiFileAuthState ::
  "((string \<times> string) list option \<Rightarrow> string + 'a) \<Rightarrow> 'a world \<Rightarrow> 'a outcome \<times> 'a world" where
  "useMultiFileAuthState load w =
     (case load (auth_dir w) of Inl e \<Rightarrow> (Threw e, w) | Inr st \<Rightarrow> (Returned st, w))"

text \<open>
  The first fetch and the \<^verbatim>\<open>while (!files)\<close> loop of \<^verbatim>\<open>getAuthState\<close>, over the
  manager's coming replies: fetch; when the value is falsy, print, sleep and fetch again.
  With no reply left the request is issued and never answered (\<open>None\<close>).
\<close>

fun fetch_loop :: "config \<Rightarrow> response list \<Rightarrow> 'a world \<Rightarrow> json option \<times> 'a world" where
  "fetch_loop cfg [] w =
     (None, (console_log LogFetching w)\<lparr>gets := Suc (gets w), net := []\<rparr>)"
| "fetch_loop cfg (r # rs) w =
     (case fetchSessionFromManager r w of
        (files, w1) \<Rightarrow>
          if truthy files then (Some files, w1\<lparr>net := rs\<rparr>)
          else fetch_loop cfg rs
                 ((console_log LogRetrying w1)\<lparr>sleeps := sleeps w1 @ [SESSION_RETRY_INTERVAL cfg]\<rparr>))"

definition getAuthState ::
  "((string \<times> string) list option \<Rightarrow> string + 'a) \<Rightarrow> config \<Rightarrow> 'a world \<Rightarrow> 'a outcome \<times> 'a world" where
  "getAuthState load cfg w =
     (if hasLocalSession cfg w then useMultiFileAuthState load (console_log LogUsingLocal w)
      else
        (case fetch_loop cfg (net w) w of
           (None, w1) \<Rightarrow> (Pending, w1)
         | (Some files, w1) \<Rightarrow> useMultiFileAuthState load (saveSessionLocally cfg files w1)))"

section \<open>Connection supervisor\<close>

text \<open>
  \<^verbatim>\<open>startBot\<close>: resolve the auth state, then make the socket and store it in \<^verbatim>\<open>sock\<close>.
  The new handle is the next index of \<open>handles\<close>. The library calls
  \<^verbatim>\<open>fetchLatestBaileysVersion\<close> and \<^verbatim>\<open>makeWASocket\<close> are taken to return. The three
  subscriptions made on the new socket are the handlers below; none is ever removed.
\<close>

definition startBot ::
  "((string \<times> string) list option \<Rightarrow> string + 'a) \<Rightarrow> config \<Rightarrow> 'a world \<Rightarrow> unit outcome \<times> 'a world" where
  "startBot load cfg w =
     (case getAuthState load cfg w of
        (Returned st, w1) \<Rightarrow>
          (Returned (), w1\<lparr>sock := Some (length (handles w1)), handles := handles w1 @ [st]\<rparr>)
      | (Threw e, w1) \<Rightarrow> (Threw e, w1)
      | (Pending, w1) \<Rightarrow> (Pending, w1))"

text \<open>
  \<^verbatim>\<open>startBot()\<close> as the last line of the file and the timers call it: the promise is
  dropped, and a rejection reaches \<^verbatim>\<open>process.on('unhandledRejection', ...)\<close>, which
  prints it.
\<close>

definition call_startBot ::
  "((string \<times> string) list option \<Rightarrow> string + 'a) \<Rightarrow> config \<Rightarrow> 'a world \<Rightarrow> 'a world" where
  "call_startBot load cfg w =
     (case startBot load cfg w of
        (Threw e, w1) \<Rightarrow> console_log ErrUnhandledRejection w1
      | (Returned u, w1) \<Rightarrow> w1
      | (Pending, w1) \<Rightarrow> w1)"

text \<open>The codes of the library's \<^verbatim>\<open>DisconnectReason\<close> that the program compares with.\<close>

definition DisconnectReason_loggedOut :: int where
  "DisconnectReason_loggedOut = 401"

definition DisconnectReason_restartRequired :: int where
  "DisconnectReason_restartRequired = 515"

text \<open>
  A \<^verbatim>\<open>connection.update\<close> event: \<open>connection\<close> is the new state when the update carries
  one, \<open>statusCode\<close> is \<^verbatim>\<open>lastDisconnect?.error?.output?.statusCode\<close>.
\<close>

record update =
  connection :: "string option"
  statusCode :: "int option"

text \<open>
  A call of a method of \<^verbatim>\<open>sock\<close>: a TypeError while \<^verbatim>\<open>sock\<close> is undefined, else the
  call is made on the handle \<^verbatim>\<open>sock\<close> holds (and is taken to succeed).
\<close>

definition sock_call :: "(nat \<Rightarrow> action) \<Rightarrow> 'a world \<Rightarrow> completion \<times> 'a world" where
  "sock_call act w =
     (case sock w of
        None \<Rightarrow> (Thrown, w)
      | Some h \<Rightarrow> (Normal, w\<lparr>outbox := outbox w @ [act h]\<rparr>))"

definition setTimeout_startBot :: "nat \<Rightarrow> 'a world \<Rightarrow> 'a world" where
  "setTimeout_startBot d w = w\<lparr>timers := timers w @ [d]\<rparr>"

text \<open>
  \<^verbatim>\<open>fs.rmSync(AUTH_DIR, { recursive: true, force: true })\<close>: \<^verbatim>\<open>force\<close> makes a missing
  directory no error; on a directory that exists the file system decides, and a removal that
  throws leaves what it did not remove.
\<close>

definition rmSync :: "'a world \<Rightarrow> completion \<times> 'a world" where
  "rmSync w =
     (case auth_dir w of
        None \<Rightarrow> (Normal, w)
      | Some d \<Rightarrow>
          (case fs_rm (fsys w) d of
             None \<Rightarrow> (Normal, w\<lparr>auth_dir := None\<rparr>)
           | Some d' \<Rightarrow> (Thrown, w\<lparr>auth_dir := Some d'\<rparr>)))"

text \<open>The handler of \<^verbatim>\<open>connection.update\<close>.\<close>

definition on_connection_update :: "config \<Rightarrow> update \<Rightarrow> 'a world \<Rightarrow> completion \<times> 'a world" where
  "on_connection_update cfg u w =
     (if connection u = Some ''open'' then
        (let w1 = console_log LogConnected w in
         if isFirstConnect w1
         then sock_call (\<lambda>h. SendMessage h (OWNER_NUMBER cfg @ ''@s.whatsapp.net'') StartupNotice None)
                (w1\<lparr>isFirstConnect := False\<rparr>)
         else (Normal, w1))
      else if connection u = Some ''close'' then
        (let w1 = console_log LogDisconnected w in
         if statusCode u = Some DisconnectReason_loggedOut then
           (let w2 = console_log LogLoggedOut w1 in
            and_then (if auth_dir w2 \<noteq> None then rmSync w2 else (Normal, w2))
              (\<lambda>w3. (Normal, setTimeout_startBot (RECONNECT_INTERVAL cfg) (w3\<lparr>isFirstConnect := True\<rparr>))))
         else if statusCode u = Some DisconnectReason_restartRequired then
           (Normal, setTimeout_startBot 3000 w1)
         else
           (Normal, setTimeout_startBot (RECONNECT_INTERVAL cfg) (console_log LogReconnecting w1)))
      else (Normal, w))"

section \<open>Inbound messages\<close>

text \<open>
  The fields of a message the handler reads (those that only feed the console are left
  out). \<open>message\<close> is \<open>None\<close> when \<^verbatim>\<open>msg.message\<close> is absent; \<^verbatim>\<open>key.remoteJid\<close> is
  taken to be a string.
\<close>

record message_content =
  conversation :: "string option"
  extendedText :: "string option"
  imageCaption :: "string option"
  videoCaption :: "string option"

record msg =
  key :: msgkey
  message :: "message_content option"

record upsert =
  messages :: "msg list"
  upsert_type :: string

text \<open>\<^verbatim>\<open>a || b || c || d || ''\<close>: the first operand that is a non-empty string.\<close>

fun first_truthy :: "string option list \<Rightarrow> string" where
  "first_truthy [] = []"
| "first_truthy (None # xs) = first_truthy xs"
| "first_truthy (Some s # xs) = (if s \<noteq> [] then s else first_truthy xs)"

definition body_of :: "message_content \<Rightarrow> string" where
  "body_of c = first_truthy [conversation c, extendedText c, imageCaption c, videoCaption c]"

definition startsWith :: "string \<Rightarrow> string \<Rightarrow> bool" where
  "startsWith s p = (take (length p) s = p)"

text \<open>
  White space as \<^verbatim>\<open>trim\<close> and \<^verbatim>\<open>\s\<close> know it, among the code units below 256: the ASCII
  white space and the no-break space.
\<close>

definition is_ws :: "char \<Rightarrow> bool" where
  "is_ws c = (c \<in> set [CHR '' '', CHR 0x09, CHR 0x0A, CHR 0x0B, CHR 0x0C, CHR 0x0D, CHR 0xA0])"

definition trim :: "string \<Rightarrow> string" where
  "trim s = rev (dropWhile is_ws (rev (dropWhile is_ws s)))"

text \<open>\<^verbatim>\<open>s.split(/\s+/)\<close>\<close>

function split_ws :: "string \<Rightarrow> string list" where
  "split_ws [] = [[]]"
| "split_ws (c # cs) =
     (if is_ws c then [] # split_ws (dropWhile is_ws cs)
      else (case split_ws cs of [] \<Rightarrow> [[c]] | t # ts \<Rightarrow> (c # t) # ts))"
  by pat_completeness auto
termination
  by (relation "measure length") (auto simp: le_imp_less_Suc length_dropWhile_le)

text \<open>
  \<^verbatim>\<open>toLowerCase\<close> among the code units below 256: the capital letters of ASCII and of
  Latin-1 (all of 0xC0 to 0xDE but the multiplication sign) move up by 32.
\<close>

definition lower_char :: "char \<Rightarrow> char" where
  "lower_char c =
     (let n = (of_char c :: nat)
      in if (65 \<le> n \<and> n \<le> 90) \<or> (192 \<le> n \<and> n \<le> 222 \<and> n \<noteq> 215) then char_of (n + 32) else c)"

definition toLowerCase :: "string \<Rightarrow> string" where
  "toLowerCase s = map lower_char s"

text \<open>The switch on the command, after the prefix matched.\<close>

definition dispatch :: "config \<Rightarrow> msg \<Rightarrow> string \<Rightarrow> 'a world \<Rightarrow> completion \<times> 'a world" where
  "dispatch cfg m body w =
     (case split_ws (trim (drop (length (PREFIX cfg)) body)) of
        [] \<Rightarrow> (Thrown, w)
      | a # args \<Rightarrow>
          (let command = toLowerCase a in
           if command = ''ping''
           then sock_call (\<lambda>h. SendMessage h (remoteJid (key m)) Pong (Some (key m))) w
           else if command = ''alive''
           then sock_call (\<lambda>h. SendMessage h (remoteJid (key m)) AliveInfo (Some (key m))) w
           else (Normal, w)))"

text \<open>One turn of the \<^verbatim>\<open>for (const msg of messages)\<close> loop.\<close>

definition process_msg :: "config \<Rightarrow> msg \<Rightarrow> 'a world \<Rightarrow> completion \<times> 'a world" where
  "process_msg cfg m w =
     (case message m of
        None \<Rightarrow> (Normal, w)
      | Some c \<Rightarrow>
          if fromMe (key m) then (Normal, w)
          else
            (let body = body_of c in
             and_then
               (and_then
                  (if AUTO_READ cfg then sock_call (\<lambda>h. ReadMessages h (key m)) (console_log LogIncoming w)
                   else (Normal, console_log LogIncoming w))
                  (\<lambda>w1. if AUTO_TYPING cfg \<and> startsWith body (PREFIX cfg)
                         then sock_call (\<lambda>h. SendPresenceUpdate h ''composing'' (remoteJid (key m))) w1
                         else (Normal, w1)))
               (\<lambda>w2. if \<not> startsWith body (PREFIX cfg) then (Normal, w2) else dispatch cfg m body w2)))"

fun process_msgs :: "config \<Rightarrow> msg list \<Rightarrow> 'a world \<Rightarrow> completion \<times> 'a world" where
  "process_msgs cfg [] w = (Normal, w)"
| "process_msgs cfg (m # ms) w = and_then (process_msg cfg m w) (process_msgs cfg ms)"

text \<open>The handler of \<^verbatim>\<open>messages.upsert\<close>.\<close>

definition on_messages_upsert :: "config \<Rightarrow> upsert \<Rightarrow> 'a world \<Rightarrow> completion \<times> 'a world" where
  "on_messages_upsert cfg ev w =
     (if upsert_type ev \<noteq> ''notify'' then (Normal, w)
      else process_msgs cfg (messages ev) w)"

section \<open>Events and runs\<close>

text \<open>
  The events a handle emits, and the two things that move the program: a handle emits an
  event, or a pending timer fires. A handler runs for every handle made so far: it was
  subscribed when the handle was made, and the program removes no subscription. A handler
  is an \<^verbatim>\<open>async\<close> function: when it throws, its promise rejects and the rejection is
  printed. Each handler and each \<^verbatim>\<open>startBot\<close> runs to its end before the next step.
  \<^verbatim>\<open>saveCreds\<close> belongs to the library, like \<^verbatim>\<open>useMultiFileAuthState\<close> which returns it:
  \<open>lib_saveCreds\<close> stands for it, from the auth state of the handle and the directory to
  the directory; \<open>lib_load\<close> is the \<open>load\<close> above.
\<close>

datatype event = ConnectionUpdate update | CredsUpdate | MessagesUpsert upsert

datatype step = Emit nat event | Timeout nat

record 'a library =
  lib_load :: "(string \<times> string) list option \<Rightarrow> string + 'a"
  lib_saveCreds :: "'a \<Rightarrow> (string \<times> string) list option \<Rightarrow> (string \<times> string) list option"

definition settle :: "completion \<times> 'a world \<Rightarrow> 'a world" where
  "settle r = (case r of (Thrown, w) \<Rightarrow> console_log ErrUnhandledRejection w | (Normal, w) \<Rightarrow> w)"

definition handle_event :: "'a library \<Rightarrow> config \<Rightarrow> nat \<Rightarrow> event \<Rightarrow> 'a world \<Rightarrow> 'a world" where
  "handle_event lib cfg h ev w =
     (case ev of
        ConnectionUpdate u \<Rightarrow> settle (on_connection_update cfg u w)
      | CredsUpdate \<Rightarrow> w\<lparr>auth_dir := lib_saveCreds lib (handles w ! h) (auth_dir w)\<rparr>
      | MessagesUpsert b \<Rightarrow> settle (on_messages_upsert cfg b w))"

definition step :: "'a library \<Rightarrow> config \<Rightarrow> step \<Rightarrow> 'a world \<Rightarrow> 'a world" where
  "step lib cfg s w =
     (case s of
        Emit h ev \<Rightarrow> if h < length (handles w) then handle_event lib cfg h ev w else w
      | Timeout i \<Rightarrow>
          if i < length (timers w)
          then call_startBot (lib_load lib) cfg (w\<lparr>timers := take i (timers w) @ drop (Suc i) (timers w)\<rparr>)
          else w)"

fun run :: "'a library \<Rightarrow> config \<Rightarrow> step list \<Rightarrow> 'a world \<Rightarrow> 'a world" where
  "run lib cfg [] w = w"
| "run lib cfg (s # ss) w = run lib cfg ss (step lib cfg s w)"

text \<open>The program's start: the banner, then \<^verbatim>\<open>startBot()\<close>.\<close>

definition main :: "'a library \<Rightarrow> config \<Rightarrow> 'a world \<Rightarrow> 'a world" where
  "main lib cfg w = call_startBot (lib_load lib) cfg (console_log LogStarting w)"

text \<open>
  The state of the module when it is loaded: \<^verbatim>\<open>let sock; let isFirstConnect = true;\<close>,
  nothing scheduled, nothing sent, over a given file system and manager.
\<close>

definition fresh :: "(string \<times> string) list option \<Rightarrow> filesys \<Rightarrow> response list \<Rightarrow> 'a world" where
  "fresh d fs rs =
     \<lparr>auth_dir = d, fsys = fs, net = rs, gets = 0, sleeps = [],
      console = [], isFirstConnect = True, sock = None, handles = [], timers = [], outbox = []\<rparr>"


section \<open>Notions used in the statements\<close>

text \<open>
  The value \<^verbatim>\<open>fetchSessionFromManager\<close> returns for a reply (lemma \<open>fetch_fst\<close>).
\<close>

definition fetch_value :: "response \<Rightarrow> json" where
  "fetch_value r =
     (case r of NetError \<Rightarrow> JNull
      | Body d \<Rightarrow> (case prop_files d of None \<Rightarrow> JNull | Some v \<Rightarrow> v))"

text \<open>
  Frames: what a part of the program leaves alone. \<open>same_supervisor\<close>: the supervisor's
  variables and the file system's ways; \<open>same_requests\<close>: the traffic with the manager.
\<close>

definition same_supervisor :: "'a world \<Rightarrow> 'a world \<Rightarrow> bool" where
  "same_supervisor w w' \<longleftrightarrow>
     isFirstConnect w' = isFirstConnect w \<and> sock w' = sock w \<and> handles w' = handles w \<and>
     timers w' = timers w \<and> outbox w' = outbox w \<and>
     fsys w' = fsys w"

definition same_requests :: "'a world \<Rightarrow> 'a world \<Rightarrow> bool" where
  "same_requests w w' \<longleftrightarrow> net w' = net w \<and> gets w' = gets w \<and> sleeps w' = sleeps w"

text \<open>
  File systems: one where nothing fails and all names are told apart; one that refuses the
  writes to one name; one that breaks off the writes to one name, leaving the file empty;
  one where the removal of the directory fails and removes nothing.
\<close>

definition healthy :: filesys where
  "healthy =
     \<lparr>mkdir_fails = False, fs_write = (\<lambda>f s. Stored), fs_rm = (\<lambda>d. None), fs_name = (\<lambda>g. g)\<rparr>"

definition refusing :: "string \<Rightarrow> filesys" where
  "refusing k = healthy\<lparr>fs_write := (\<lambda>f s. if f = k then Refused else Stored)\<rparr>"

definition breaking :: "string \<Rightarrow> filesys" where
  "breaking k = healthy\<lparr>fs_write := (\<lambda>f s. if f = k then Broken [] else Stored)\<rparr>"

definition stuck :: filesys where
  "stuck = healthy\<lparr>fs_rm := (\<lambda>d. Some d)\<rparr>"

text \<open>
  A configuration and a library to run the program on. This \<open>load\<close> gives the text of the
  identity file, fresh credentials when there is none, and refuses the text \<^verbatim>\<open>garbage\<close>.
\<close>

definition demo_config :: config where
  "demo_config =
     \<lparr>SESSION_ID = ''bot1'', SESSION_RETRY_INTERVAL = 5000, RECONNECT_INTERVAL = 5000, PREFIX = ''.'',
      OWNER_NUMBER = ''15550100'', AUTO_READ = True, AUTO_TYPING = True\<rparr>"

definition demo_load :: "(string \<times> string) list option \<Rightarrow> string + string" where
  "demo_load d =
     (case d of
        None \<Rightarrow> Inr ''new''
      | Some fs \<Rightarrow>
          (case map_of fs ''creds.json'' of
             None \<Rightarrow> Inr ''new''
           | Some s \<Rightarrow> if s = ''garbage'' then Inl ''CorruptState'' else Inr s))"

definition demo_library :: "string library" where
  "demo_library =
     \<lparr>lib_load = demo_load,
      lib_saveCreds = (\<lambda>st d. case d of None \<Rightarrow> None | Some fs \<Rightarrow> Some (AList.update ''creds.json'' st fs))\<rparr>"

text \<open>A file name with no separator that is neither empty nor a dot name.\<close>

definition plain_name :: "string \<Rightarrow> bool" where
  "plain_name f \<longleftrightarrow> CHR ''/'' \<notin> set f \<and> f \<noteq> [] \<and> f \<noteq> ''.'' \<and> f \<noteq> ''..''"

text \<open>
  A SessionFileSet as the manager sends it: an object whose values are strings. \<open>stored\<close>
  is the directory after one entry was written: changed when the name stands for a file
  directly inside the directory. \<open>written\<close> is the directory after the entries were written in
  order. \<open>left_by_failure\<close> is the directory after a write that threw. \<open>rm_ok\<close>: the removal
  of the directory does not throw.
\<close>

definition file_set :: "(string \<times> string) list \<Rightarrow> json" where
  "file_set es = JObj (map (\<lambda>(f, s). (f, JStr s)) es)"

definition stored ::
  "config \<Rightarrow> 'a world \<Rightarrow> string \<times> string \<Rightarrow> (string \<times> string) list \<Rightarrow> (string \<times> string) list" where
  "stored cfg w e d = (case file_key cfg w (fst e) of None \<Rightarrow> d | Some k \<Rightarrow> AList.update k (snd e) d)"

definition written ::
  "config \<Rightarrow> 'a world \<Rightarrow> (string \<times> string) list \<Rightarrow> (string \<times> string) list \<Rightarrow> (string \<times> string) list" where
  "written cfg w es d = fold (stored cfg w) es d"

definition left_by_failure ::
  "config \<Rightarrow> 'a world \<Rightarrow> string \<Rightarrow> write_result \<Rightarrow> (string \<times> string) list \<Rightarrow> (string \<times> string) list" where
  "left_by_failure cfg w f r d = (case r of Broken t \<Rightarrow> stored cfg w (f, t) d | _ \<Rightarrow> d)"

definition rm_ok :: "'a world \<Rightarrow> bool" where
  "rm_ok w = (case auth_dir w of None \<Rightarrow> True | Some d \<Rightarrow> fs_rm (fsys w) d = None)"

definition dir_or_empty :: "'a world \<Rightarrow> (string \<times> string) list" where
  "dir_or_empty w = (case auth_dir w of None \<Rightarrow> [] | Some d \<Rightarrow> d)"

text \<open>
  The program started on a directory that holds an identity file, with a manager that has
  a file set to give.
\<close>

definition demo_world :: "string world" where
  "demo_world =
     main demo_library demo_config
       (fresh (Some [(''creds.json'', ''{}'')]) healthy
          [Body (JObj [(''files'', file_set [(''creds.json'', ''{2}'')])])])"

text \<open>
  The same program on a file system that refuses to remove the session directory, with no
  manager; and under settings whose \<^verbatim>\<open>RECONNECT_INTERVAL\<close> is one second.
\<close>

definition stuck_world :: "string world" where
  "stuck_world = main demo_library demo_config (fresh (Some [(''creds.json'', ''{}'')]) stuck [])"

definition quick_config :: config where
  "quick_config = demo_config\<lparr>RECONNECT_INTERVAL := 1000\<rparr>"

definition quick_world :: "string world" where
  "quick_world = main demo_library quick_config (fresh (Some [(''creds.json'', ''{}'')]) healthy [])"

text \<open>
  The startup notices sent so far; a wipe is a \<^verbatim>\<open>close\<close> update with the logged-out code;
  \<open>sock_latest\<close>: \<^verbatim>\<open>sock\<close> is the handle made last, or undefined when none was made;
  \<open>same_epoch\<close>: the flag, the notices sent, \<^verbatim>\<open>sock\<close> and the handles are the same.
\<close>

fun is_startup :: "action \<Rightarrow> bool" where
  "is_startup (SendMessage h jid StartupNotice q) = True"
| "is_startup a = False"

definition startup_notices :: "'a world \<Rightarrow> nat" where
  "startup_notices w = length (filter is_startup (outbox w))"

definition is_wipe :: "step \<Rightarrow> bool" where
  "is_wipe s =
     (case s of
        Emit h (ConnectionUpdate u) \<Rightarrow>
          connection u = Some ''close'' \<and> statusCode u = Some DisconnectReason_loggedOut
      | _ \<Rightarrow> False)"

definition is_timeout :: "step \<Rightarrow> bool" where
  "is_timeout s = (case s of Timeout i \<Rightarrow> True | _ \<Rightarrow> False)"

definition sock_latest :: "'a world \<Rightarrow> bool" where
  "sock_latest w = (case sock w of None \<Rightarrow> handles w = [] | Some h \<Rightarrow> Suc h = length (handles w))"

definition same_epoch :: "'a world \<Rightarrow> 'a world \<Rightarrow> bool" where
  "same_epoch w w' \<longleftrightarrow>
     isFirstConnect w' = isFirstConnect w \<and> startup_notices w' = startup_notices w \<and>
     sock w' = sock w \<and> handles w' = handles w"

text \<open>A \<^verbatim>\<open>notify\<close> batch with one message from someone else, the command \<^verbatim>\<open>.ping\<close>.\<close>

definition demo_ping :: upsert where
  "demo_ping =
     \<lparr>messages =
        [\<lparr>key = \<lparr>remoteJid = ''15550101@s.whatsapp.net'', fromMe = False, msg_id = ''A3''\<rparr>,
          message = Some \<lparr>conversation = Some ''.ping'', extendedText = None,
                           imageCaption = None, videoCaption = None\<rparr>\<rparr>],
      upsert_type = ''notify''\<rparr>"


section \<open>File names\<close>

lemma split_slash_not_Nil: "split_slash p \<noteq> []"
  by (induction p) (auto split: list.splits)

lemma split_slash_plain: "CHR ''/'' \<notin> set f \<Longrightarrow> split_slash f = [f]"
  by (induction f) auto

lemma split_slash_append:
  "split_slash (a @ CHR ''/'' # b) = split_slash a @ split_slash b"
proof (induction a)
  case Nil
  show ?case by simp
next
  case (Cons c a)
  obtain t ts where "split_slash a = t # ts"
    using split_slash_not_Nil [of a] by (cases "split_slash a") auto
  with Cons.IH show ?case by simp
qed

lemma normalize_plain:
  assumes "plain_name f"
  shows "path_normalize (dir @ CHR ''/'' # f) = path_normalize dir @ [f]"
proof -
  from assms have "split_slash (dir @ CHR ''/'' # f) = split_slash dir @ [f]"
    by (simp add: split_slash_append split_slash_plain plain_name_def)
  with assms show ?thesis
    by (simp add: path_normalize_def norm_step_def plain_name_def)
qed

text \<open>A plain name stands for the file of that name directly inside \<^verbatim>\<open>AUTH_DIR\<close>.\<close>

lemma plain_file_plain:
  assumes "plain_name f"
  shows "plain_file cfg f = Some f"
proof -
  from assms have n: "f \<noteq> []" and "CHR ''/'' \<notin> set f"
    by (simp_all add: plain_name_def)
  then have "last f \<noteq> CHR ''/''"
    by (metis last_in_set)
  with n have "last (AUTH_DIR cfg @ ''/'' @ f) \<noteq> CHR ''/''"
    by simp
  with assms show ?thesis
    by (simp add: plain_file_def path_join_def normalize_plain plain_name_def)
qed

lemma plain_creds [simp]: "plain_file cfg ''creds.json'' = Some ''creds.json''"
  by (rule plain_file_plain) (simp add: plain_name_def)

lemma hasLocalSession_iff:
  "hasLocalSession cfg w \<longleftrightarrow>
     (\<exists>d. auth_dir w = Some d \<and> map_of d (fs_name (fsys w) ''creds.json'') \<noteq> None)"
  by (simp add: hasLocalSession_def file_key_def split: option.splits)

lemma file_key_fsys: "fsys w' = fsys w \<Longrightarrow> file_key cfg w' = file_key cfg w"
  by (rule ext) (simp add: file_key_def)

lemma stored_fsys: "fsys w' = fsys w \<Longrightarrow> stored cfg w' = stored cfg w"
  by (intro ext) (simp add: stored_def file_key_fsys [of w' w])

lemma written_fsys: "fsys w' = fsys w \<Longrightarrow> written cfg w' = written cfg w"
  by (intro ext) (simp add: written_def stored_fsys [of w' w])

lemma put_file_stored:
  "put_file cfg f t w =
     (case auth_dir w of None \<Rightarrow> w | Some d \<Rightarrow> w\<lparr>auth_dir := Some (stored cfg w (f, t) d)\<rparr>)"
  by (simp add: put_file_def stored_def split: option.splits)

section \<open>Frames of the session provider\<close>

lemma same_supervisor_refl [simp]: "same_supervisor w w"
  by (simp add: same_supervisor_def)

lemma same_supervisor_trans:
  "same_supervisor w w1 \<Longrightarrow> same_supervisor w1 w2 \<Longrightarrow> same_supervisor w w2"
  by (simp add: same_supervisor_def)

lemma same_requests_refl [simp]: "same_requests w w"
  by (simp add: same_requests_def)

lemma same_requests_trans:
  "same_requests w w1 \<Longrightarrow> same_requests w1 w2 \<Longrightarrow> same_requests w w2"
  by (simp add: same_requests_def)

lemma fetch_fst: "fst (fetchSessionFromManager r w) = fetch_value r"
  by (simp add: fetchSessionFromManager_def fetch_value_def Let_def split: response.splits option.splits)

lemma fetch_supervisor: "same_supervisor w (snd (fetchSessionFromManager r w))"
  by (simp add: fetchSessionFromManager_def same_supervisor_def console_log_def Let_def
      split: response.splits option.splits)

lemma fetch_store: "auth_dir (snd (fetchSessionFromManager r w)) = auth_dir w"
  by (simp add: fetchSessionFromManager_def console_log_def Let_def
      split: response.splits option.splits)

lemma fetch_requests:
  "gets (snd (fetchSessionFromManager r w)) = Suc (gets w) \<and>
   sleeps (snd (fetchSessionFromManager r w)) = sleeps w"
  by (simp add: fetchSessionFromManager_def console_log_def Let_def
      split: response.splits option.splits)

lemma fetch_loop_Cons:
  "fetch_loop cfg (r # rs) w =
     (if truthy (fetch_value r) then (Some (fetch_value r), (snd (fetchSessionFromManager r w))\<lparr>net := rs\<rparr>)
      else fetch_loop cfg rs
             ((console_log LogRetrying (snd (fetchSessionFromManager r w)))
                \<lparr>sleeps := sleeps w @ [SESSION_RETRY_INTERVAL cfg]\<rparr>))"
  by (simp add: case_prod_beta fetch_fst fetch_requests)

declare fetch_loop.simps(2) [simp del]

lemma fetch_loop_supervisor: "same_supervisor w (snd (fetch_loop cfg rs w))"
proof (induction rs arbitrary: w)
  case Nil
  show ?case by (simp add: same_supervisor_def console_log_def)
next
  case (Cons r rs)
  let ?w2 = "(console_log LogRetrying (snd (fetchSessionFromManager r w)))
                \<lparr>sleeps := sleeps w @ [SESSION_RETRY_INTERVAL cfg]\<rparr>"
  have "same_supervisor w ?w2"
    using fetch_supervisor [of w r] by (simp add: same_supervisor_def console_log_def)
  with Cons.IH [of ?w2] have "same_supervisor w (snd (fetch_loop cfg rs ?w2))"
    by (rule same_supervisor_trans [rotated])
  moreover have "same_supervisor w ((snd (fetchSessionFromManager r w))\<lparr>net := rs\<rparr>)"
    using fetch_supervisor [of w r] by (simp add: same_supervisor_def)
  ultimately show ?case by (simp add: fetch_loop_Cons)
qed

lemma fetch_loop_store: "auth_dir (snd (fetch_loop cfg rs w)) = auth_dir w"
proof (induction rs arbitrary: w)
  case Nil
  show ?case by (simp add: console_log_def)
next
  case (Cons r rs)
  show ?case by (simp add: fetch_loop_Cons Cons.IH fetch_store console_log_def)
qed

text \<open>After \<open>n\<close> falsy replies the loop has issued \<open>n\<close> requests and slept \<open>n\<close> times.\<close>

lemma fetch_loop_fails:
  assumes "\<forall>r\<in>set fails. \<not> truthy (fetch_value r)"
  shows "\<exists>w1. fetch_loop cfg (fails @ rest) w = fetch_loop cfg rest w1 \<and>
            gets w1 = gets w + length fails \<and>
            sleeps w1 = sleeps w @ replicate (length fails) (SESSION_RETRY_INTERVAL cfg)"
  using assms
proof (induction fails arbitrary: w)
  case Nil
  show ?case by (intro exI [of _ w]) simp
next
  case (Cons r fails)
  let ?w2 = "(console_log LogRetrying (snd (fetchSessionFromManager r w)))
                \<lparr>sleeps := sleeps w @ [SESSION_RETRY_INTERVAL cfg]\<rparr>"
  from Cons.prems have e: "fetch_loop cfg ((r # fails) @ rest) w = fetch_loop cfg (fails @ rest) ?w2"
    by (simp add: fetch_loop_Cons)
  have g: "gets ?w2 = Suc (gets w)" and s: "sleeps ?w2 = sleeps w @ [SESSION_RETRY_INTERVAL cfg]"
    by (simp_all add: console_log_def fetch_requests)
  from Cons.IH [of ?w2] Cons.prems obtain w1 where
    "fetch_loop cfg (fails @ rest) ?w2 = fetch_loop cfg rest w1"
    "gets w1 = gets ?w2 + length fails"
    "sleeps w1 = sleeps ?w2 @ replicate (length fails) (SESSION_RETRY_INTERVAL cfg)"
    by auto
  then show ?case
    unfolding e g s by (intro exI [of _ w1]) (simp add: replicate_app_Cons_same)
qed

lemma writeFileSync_supervisor: "same_supervisor w (snd (writeFileSync cfg f c w))"
  by (simp add: writeFileSync_def put_file_def same_supervisor_def
      split: option.splits json.splits write_result.splits)

lemma writeFileSync_requests: "same_requests w (snd (writeFileSync cfg f c w))"
  by (simp add: writeFileSync_def put_file_def same_requests_def
      split: option.splits json.splits write_result.splits)

lemma write_entries_supervisor: "same_supervisor w (snd (write_entries cfg es w))"
proof (induction es arbitrary: w)
  case Nil
  show ?case by simp
next
  case (Cons e es)
  obtain f c where e: "e = (f, c)" by (cases e)
  have "same_supervisor w (snd (write_entries cfg es (snd (writeFileSync cfg f c w))))"
    using writeFileSync_supervisor Cons.IH by (rule same_supervisor_trans)
  then show ?case
    using writeFileSync_supervisor [of w cfg f c]
    by (simp add: e case_prod_beta split: completion.splits)
qed

lemma write_entries_requests: "same_requests w (snd (write_entries cfg es w))"
proof (induction es arbitrary: w)
  case Nil
  show ?case by simp
next
  case (Cons e es)
  obtain f c where e: "e = (f, c)" by (cases e)
  have "same_requests w (snd (write_entries cfg es (snd (writeFileSync cfg f c w))))"
    using writeFileSync_requests Cons.IH by (rule same_requests_trans)
  then show ?case
    using writeFileSync_requests [of w cfg f c]
    by (simp add: e case_prod_beta split: completion.splits)
qed

lemma saveSessionLocally_supervisor: "same_supervisor w (saveSessionLocally cfg files w)"
proof -
  have m: "same_supervisor w (snd (ensure_dir w))"
    by (simp add: ensure_dir_def same_supervisor_def)
  have "same_supervisor w (snd (write_entries cfg es (snd (ensure_dir w))))" for es
    using m write_entries_supervisor by (rule same_supervisor_trans)
  then have "same_supervisor w (snd (save_try cfg files w))"
    using m by (auto simp: save_try_def case_prod_beta console_log_def same_supervisor_def
        split: completion.splits option.splits)
  then show ?thesis
    by (auto simp: saveSessionLocally_def case_prod_beta console_log_def same_supervisor_def
        split: completion.splits)
qed

lemma saveSessionLocally_requests: "same_requests w (saveSessionLocally cfg files w)"
proof -
  have m: "same_requests w (snd (ensure_dir w))"
    by (simp add: ensure_dir_def same_requests_def)
  have "same_requests w (snd (write_entries cfg es (snd (ensure_dir w))))" for es
    using m write_entries_requests by (rule same_requests_trans)
  then have "same_requests w (snd (save_try cfg files w))"
    using m by (auto simp: save_try_def case_prod_beta console_log_def same_requests_def
        split: completion.splits option.splits)
  then show ?thesis
    by (auto simp: saveSessionLocally_def case_prod_beta console_log_def same_requests_def
        split: completion.splits)
qed

lemma useMultiFileAuthState_snd: "snd (useMultiFileAuthState load w) = w"
  by (simp add: useMultiFileAuthState_def split: sum.splits)

lemma getAuthState_supervisor: "same_supervisor w (snd (getAuthState load cfg w))"
proof (cases "hasLocalSession cfg w")
  case True
  then show ?thesis
    by (simp add: getAuthState_def useMultiFileAuthState_snd console_log_def same_supervisor_def)
next
  case False
  show ?thesis
  proof (cases "fst (fetch_loop cfg (net w) w)")
    case None
    then show ?thesis
      using False fetch_loop_supervisor [of w cfg "net w"]
      by (simp add: getAuthState_def case_prod_beta)
  next
    case (Some files)
    have "same_supervisor w (saveSessionLocally cfg files (snd (fetch_loop cfg (net w) w)))"
      using fetch_loop_supervisor saveSessionLocally_supervisor by (rule same_supervisor_trans)
    with Some False show ?thesis
      by (simp add: getAuthState_def case_prod_beta useMultiFileAuthState_snd)
  qed
qed

lemma useMultiFileAuthState_fst:
  "fst (useMultiFileAuthState load w) = (case load (auth_dir w) of Inl e \<Rightarrow> Threw e | Inr st \<Rightarrow> Returned st)"
  by (simp add: useMultiFileAuthState_def split: sum.splits)

lemma useMultiFileAuthState_not_Pending: "fst (useMultiFileAuthState load w) \<noteq> Pending"
  by (simp add: useMultiFileAuthState_def split: sum.splits)

section \<open>Session provider\<close>

text \<open>
  C6. When the identity file \<^verbatim>\<open>creds.json\<close> is present, \<^verbatim>\<open>getAuthState\<close> returns what the
  library loads from the directory as it is, or rejects with the library's error; it issues
  no request to the manager, sleeps not at all and leaves the directory alone.
\<close>

theorem local_session_no_fetch:
  assumes "hasLocalSession cfg w"
  shows "fst (getAuthState load cfg w) =
           (case load (auth_dir w) of Inl e \<Rightarrow> Threw e | Inr st \<Rightarrow> Returned st) \<and>
         gets (snd (getAuthState load cfg w)) = gets w \<and>
         net (snd (getAuthState load cfg w)) = net w \<and>
         sleeps (snd (getAuthState load cfg w)) = sleeps w \<and>
         auth_dir (snd (getAuthState load cfg w)) = auth_dir w"
proof -
  from assms have "getAuthState load cfg w = useMultiFileAuthState load (console_log LogUsingLocal w)"
    by (simp add: getAuthState_def)
  then show ?thesis
    by (simp add: useMultiFileAuthState_fst useMultiFileAuthState_snd console_log_def)
qed

theorem local_session_no_fetch_witness:
  "hasLocalSession demo_config (fresh (Some [(''creds.json'', ''{}'')]) healthy [NetError] :: string world) \<and>
   fst (getAuthState demo_load demo_config
          (fresh (Some [(''creds.json'', ''{}'')]) healthy [NetError])) = Returned ''{}'' \<and>
   gets (snd (getAuthState demo_load demo_config
          (fresh (Some [(''creds.json'', ''{}'')]) healthy [NetError]))) = 0"
proof -
  have h: "hasLocalSession demo_config (fresh (Some [(''creds.json'', ''{}'')]) healthy [NetError] :: string world)"
    by (simp add: hasLocalSession_iff fresh_def healthy_def)
  from local_session_no_fetch [OF h, of demo_load] h show ?thesis
    by (simp add: fresh_def demo_load_def)
qed

text \<open>
  C2, as amended. With no local session, let the manager's replies be \<open>fails @ rest\<close>, every
  reply of \<open>fails\<close> giving a falsy value (a rejected request, a body without \<^verbatim>\<open>files\<close>) and
  \<open>rest\<close> empty or starting with a reply whose \<^verbatim>\<open>files\<close> is truthy. Then, whatever the number of
  failures, \<^verbatim>\<open>getAuthState\<close> has issued one request per failure and one more, has slept the
  retry interval once per failure, and it is still waiting exactly when no truthy reply came;
  the replies after the truthy one are not consumed.
\<close>

theorem fetch_loop_until_truthy:
  assumes "\<not> hasLocalSession cfg w"
    and "net w = fails @ rest"
    and "\<forall>r\<in>set fails. \<not> truthy (fetch_value r)"
    and "rest = [] \<or> truthy (fetch_value (hd rest))"
  shows "(fst (getAuthState load cfg w) = Pending \<longleftrightarrow> rest = []) \<and>
         gets (snd (getAuthState load cfg w)) = gets w + length fails + 1 \<and>
         sleeps (snd (getAuthState load cfg w)) =
           sleeps w @ replicate (length fails) (SESSION_RETRY_INTERVAL cfg) \<and>
         net (snd (getAuthState load cfg w)) = tl rest"
proof -
  from fetch_loop_fails [OF assms(3), of cfg rest w] obtain w1 where
    l: "fetch_loop cfg (net w) w = fetch_loop cfg rest w1"
    and g: "gets w1 = gets w + length fails"
    and s: "sleeps w1 = sleeps w @ replicate (length fails) (SESSION_RETRY_INTERVAL cfg)"
    using assms(2) by auto
  show ?thesis
  proof (cases rest)
    case Nil
    then have "getAuthState load cfg w =
        (Pending, (console_log LogFetching w1)\<lparr>gets := Suc (gets w1), net := []\<rparr>)"
      using assms(1) l by (simp add: getAuthState_def)
    then show ?thesis using Nil g s by (simp add: console_log_def)
  next
    case (Cons r rs)
    with assms(4) have t: "truthy (fetch_value r)" by simp
    let ?w2 = "(snd (fetchSessionFromManager r w1))\<lparr>net := rs\<rparr>"
    have "fetch_loop cfg rest w1 = (Some (fetch_value r), ?w2)"
      using Cons t by (simp add: fetch_loop_Cons)
    then have e: "getAuthState load cfg w =
        useMultiFileAuthState load (saveSessionLocally cfg (fetch_value r) ?w2)"
      using assms(1) l by (simp add: getAuthState_def)
    have "same_requests ?w2 (saveSessionLocally cfg (fetch_value r) ?w2)"
      by (rule saveSessionLocally_requests)
    then show ?thesis
      using Cons g s
      by (simp add: e useMultiFileAuthState_snd useMultiFileAuthState_not_Pending
          same_requests_def fetch_requests)
  qed
qed

theorem fetch_loop_until_truthy_witness:
  "\<not> hasLocalSession demo_config (fresh None healthy
        [NetError, Body (JStr ''oops''), Body (JObj [(''files'', JObj [(''creds.json'', JStr ''{}'')])]), NetError]
      :: string world) \<and>
   fst (getAuthState demo_load demo_config (fresh None healthy
        [NetError, Body (JStr ''oops''), Body (JObj [(''files'', JObj [(''creds.json'', JStr ''{}'')])]), NetError]))
     \<noteq> Pending \<and>
   gets (snd (getAuthState demo_load demo_config (fresh None healthy
        [NetError, Body (JStr ''oops''), Body (JObj [(''files'', JObj [(''creds.json'', JStr ''{}'')])]), NetError])))
     = 3 \<and>
   sleeps (snd (getAuthState demo_load demo_config (fresh None healthy
        [NetError, Body (JStr ''oops''), Body (JObj [(''files'', JObj [(''creds.json'', JStr ''{}'')])]), NetError])))
     = [5000, 5000] \<and>
   net (snd (getAuthState demo_load demo_config (fresh None healthy
        [NetError, Body (JStr ''oops''), Body (JObj [(''files'', JObj [(''creds.json'', JStr ''{}'')])]), NetError])))
     = [NetError]"
proof -
  let ?good = "Body (JObj [(''files'', JObj [(''creds.json'', JStr ''{}'')])])"
  let ?w = "fresh None healthy [NetError, Body (JStr ''oops''), ?good, NetError] :: string world"
  have a: "\<not> hasLocalSession demo_config ?w"
    by (simp add: hasLocalSession_iff fresh_def)
  have b: "net ?w = [NetError, Body (JStr ''oops'')] @ [?good, NetError]"
    by (simp add: fresh_def)
  have c: "\<forall>r\<in>set [NetError, Body (JStr ''oops'')]. \<not> truthy (fetch_value r)"
    by (simp add: fetch_value_def)
  have d: "[?good, NetError] = [] \<or> truthy (fetch_value (hd [?good, NetError]))"
    by (simp add: fetch_value_def)
  from fetch_loop_until_truthy [OF a b c d, of demo_load] a show ?thesis
    by (simp add: fresh_def demo_config_def)
qed

text \<open>
  C2 as stated fails: the reply \<^verbatim>\<open>{"files": {}}\<close> carries an empty file set, which is truthy,
  so the loop ends at the first request with nothing to write.
\<close>

theorem empty_file_set_ends_loop:
  "fetch_value (Body (JObj [(''files'', JObj [])])) = JObj [] \<and>
   Object_entries (JObj []) = Some [] \<and>
   fst (getAuthState demo_load demo_config
          (fresh None healthy [Body (JObj [(''files'', JObj [])])])) = Returned ''new'' \<and>
   gets (snd (getAuthState demo_load demo_config
          (fresh None healthy [Body (JObj [(''files'', JObj [])])]))) = 1 \<and>
   auth_dir (snd (getAuthState demo_load demo_config
          (fresh None healthy [Body (JObj [(''files'', JObj [])])]))) = Some []"
  by (simp add: fetch_value_def getAuthState_def hasLocalSession_iff fresh_def fetch_loop_Cons
      fetchSessionFromManager_def console_log_def saveSessionLocally_def save_try_def
      ensure_dir_def useMultiFileAuthState_def demo_load_def healthy_def)

section \<open>Credential store: saving a file set\<close>

lemma written_Nil [simp]: "written cfg w [] d = d"
  by (simp add: written_def)

lemma written_Cons [simp]: "written cfg w (e # es) d = written cfg w es (stored cfg w e d)"
  by (simp add: written_def)

lemma writeFileSync_Stored:
  assumes "auth_dir w = Some d" and "fs_write (fsys w) f s = Stored"
  shows "writeFileSync cfg f (JStr s) w = (Normal, w\<lparr>auth_dir := Some (stored cfg w (f, s) d)\<rparr>)"
  using assms by (simp add: writeFileSync_def put_file_stored)

lemma writeFileSync_fails:
  assumes "auth_dir w = Some d" and "fs_write (fsys w) f s \<noteq> Stored"
  shows "writeFileSync cfg f (JStr s) w =
           (Thrown, w\<lparr>auth_dir := Some (left_by_failure cfg w f (fs_write (fsys w) f s) d)\<rparr>)"
proof (cases "fs_write (fsys w) f s")
  case Stored
  with assms(2) show ?thesis by simp
next
  case Refused
  have "w\<lparr>auth_dir := Some d\<rparr> = w"
    using assms(1) by (cases w) simp
  with Refused assms(1) show ?thesis
    by (simp add: writeFileSync_def left_by_failure_def)
next
  case (Broken t)
  with assms(1) show ?thesis
    by (simp add: writeFileSync_def left_by_failure_def put_file_stored)
qed

lemma left_by_failure_fsys:
  "fsys w' = fsys w \<Longrightarrow> left_by_failure cfg w' = left_by_failure cfg w"
  by (simp add: left_by_failure_def fun_eq_iff stored_fsys [of w' w] split: write_result.splits)

lemma write_entries_ok:
  assumes "auth_dir w = Some d" and "\<forall>(f, s)\<in>set es. fs_write (fsys w) f s = Stored"
  shows "write_entries cfg (map (\<lambda>(f, s). (f, JStr s)) es) w =
           (Normal, w\<lparr>auth_dir := Some (written cfg w es d)\<rparr>)"
  using assms
proof (induction es arbitrary: w d)
  case Nil
  then have "w\<lparr>auth_dir := Some d\<rparr> = w" by (cases w) simp
  then show ?case by simp
next
  case (Cons e es)
  obtain f s where e: "e = (f, s)" by (cases e)
  let ?w1 = "w\<lparr>auth_dir := Some (stored cfg w (f, s) d)\<rparr>"
  from Cons.prems have w: "writeFileSync cfg f (JStr s) w = (Normal, ?w1)"
    by (intro writeFileSync_Stored) (simp_all add: e)
  have k: "written cfg ?w1 = written cfg w"
    by (rule written_fsys) simp
  have "write_entries cfg (map (\<lambda>(f, s). (f, JStr s)) es) ?w1 =
          (Normal, ?w1\<lparr>auth_dir := Some (written cfg ?w1 es (stored cfg w (f, s) d))\<rparr>)"
    using Cons.prems by (intro Cons.IH) simp_all
  then show ?case by (simp add: e w k)
qed

lemma write_entries_stops:
  assumes "auth_dir w = Some d" and "\<forall>(f, t)\<in>set pre. fs_write (fsys w) f t = Stored"
    and "fs_write (fsys w) k s \<noteq> Stored"
  shows "write_entries cfg (map (\<lambda>(f, s). (f, JStr s)) pre @ (k, JStr s) # post) w =
           (Thrown, w\<lparr>auth_dir :=
              Some (left_by_failure cfg w k (fs_write (fsys w) k s) (written cfg w pre d))\<rparr>)"
  using assms
proof (induction pre arbitrary: w d)
  case Nil
  then show ?case by (simp add: writeFileSync_fails)
next
  case (Cons e pre)
  obtain f t where e: "e = (f, t)" by (cases e)
  let ?w1 = "w\<lparr>auth_dir := Some (stored cfg w (f, t) d)\<rparr>"
  from Cons.prems have w: "writeFileSync cfg f (JStr t) w = (Normal, ?w1)"
    by (intro writeFileSync_Stored) (simp_all add: e)
  have k: "written cfg ?w1 = written cfg w" "left_by_failure cfg ?w1 = left_by_failure cfg w"
    by (rule written_fsys, simp, rule left_by_failure_fsys, simp)
  have "write_entries cfg (map (\<lambda>(f, s). (f, JStr s)) pre @ (k, JStr s) # post) ?w1 =
          (Thrown, ?w1\<lparr>auth_dir :=
             Some (left_by_failure cfg ?w1 k (fs_write (fsys ?w1) k s)
                     (written cfg ?w1 pre (stored cfg w (f, t) d)))\<rparr>)"
    using Cons.prems by (intro Cons.IH) simp_all
  then show ?case by (simp add: e w k)
qed

lemma ensure_dir_ok:
  "\<not> (auth_dir w = None \<and> mkdir_fails (fsys w)) \<Longrightarrow>
   ensure_dir w = (Normal, w\<lparr>auth_dir := Some (dir_or_empty w)\<rparr>)"
  by (auto simp: ensure_dir_def dir_or_empty_def)

lemma save_all_written:
  assumes "\<not> (auth_dir w = None \<and> mkdir_fails (fsys w))"
    and "\<forall>(f, s)\<in>set es. fs_write (fsys w) f s = Stored"
  shows "saveSessionLocally cfg (file_set es) w =
           console_log LogSaved (w\<lparr>auth_dir := Some (written cfg w es (dir_or_empty w))\<rparr>)"
proof -
  let ?w1 = "w\<lparr>auth_dir := Some (dir_or_empty w)\<rparr>"
  have k: "written cfg ?w1 = written cfg w"
    by (rule written_fsys) simp
  have "write_entries cfg (map (\<lambda>(f, s). (f, JStr s)) es) ?w1 =
          (Normal, ?w1\<lparr>auth_dir := Some (written cfg ?w1 es (dir_or_empty w))\<rparr>)"
    using assms(2) by (intro write_entries_ok) simp_all
  then show ?thesis
    by (simp add: saveSessionLocally_def save_try_def ensure_dir_ok [OF assms(1)] file_set_def k)
qed

lemma save_stops_at_failure:
  assumes "\<not> (auth_dir w = None \<and> mkdir_fails (fsys w))"
    and "\<forall>(f, t)\<in>set pre. fs_write (fsys w) f t = Stored"
    and "fs_write (fsys w) k s \<noteq> Stored"
  shows "saveSessionLocally cfg (file_set (pre @ (k, s) # post)) w =
           console_log ErrSave
             (w\<lparr>auth_dir :=
                Some (left_by_failure cfg w k (fs_write (fsys w) k s)
                        (written cfg w pre (dir_or_empty w)))\<rparr>)"
proof -
  let ?w1 = "w\<lparr>auth_dir := Some (dir_or_empty w)\<rparr>"
  have k: "written cfg ?w1 = written cfg w" "left_by_failure cfg ?w1 = left_by_failure cfg w"
    by (rule written_fsys, simp, rule left_by_failure_fsys, simp)
  have "write_entries cfg
          (map (\<lambda>(f, s). (f, JStr s)) pre @ (k, JStr s) # map (\<lambda>(f, s). (f, JStr s)) post) ?w1 =
          (Thrown, ?w1\<lparr>auth_dir :=
             Some (left_by_failure cfg ?w1 k (fs_write (fsys ?w1) k s)
                     (written cfg ?w1 pre (dir_or_empty w)))\<rparr>)"
    using assms(2,3) by (intro write_entries_stops) simp_all
  then show ?thesis
    by (simp add: saveSessionLocally_def save_try_def ensure_dir_ok [OF assms(1)] file_set_def k)
qed

lemma save_no_directory:
  assumes "auth_dir w = None" and "mkdir_fails (fsys w)"
  shows "saveSessionLocally cfg files w = console_log ErrSave w"
  using assms by (simp add: saveSessionLocally_def save_try_def ensure_dir_def)

lemma map_of_written_other:
  "\<forall>e\<in>set es. file_key cfg w (fst e) \<noteq> Some k \<Longrightarrow>
   map_of (written cfg w es d) k = map_of d k"
proof (induction es arbitrary: d)
  case Nil
  show ?case by simp
next
  case (Cons e es)
  from Cons.prems have "map_of (stored cfg w e d) k = map_of d k"
    by (auto simp: stored_def update_conv' split: option.splits)
  with Cons.prems show ?case by (simp add: Cons.IH)
qed

lemma map_of_written:
  assumes "distinct (map (\<lambda>e. file_key cfg w (fst e)) es)" and "(f, s) \<in> set es"
    and "file_key cfg w f = Some k"
  shows "map_of (written cfg w es d) k = Some s"
  using assms
proof (induction es arbitrary: d)
  case Nil
  then show ?case by simp
next
  case (Cons e es)
  show ?case
  proof (cases "(f, s) = e")
    case True
    from True [symmetric] Cons.prems(1,3) have "Some k \<notin> (\<lambda>e. file_key cfg w (fst e)) ` set es"
      by simp
    then have "\<forall>e'\<in>set es. file_key cfg w (fst e') \<noteq> Some k"
      by (metis imageI)
    then have "map_of (written cfg w es (stored cfg w e d)) k = map_of (stored cfg w e d) k"
      by (rule map_of_written_other)
    with True Cons.prems(3) show ?thesis
      by (auto simp: stored_def update_conv')
  next
    case False
    with Cons.prems have "(f, s) \<in> set es" and "distinct (map (\<lambda>e. file_key cfg w (fst e)) es)"
      by auto
    then show ?thesis using Cons.prems(3) by (simp add: Cons.IH)
  qed
qed

text \<open>The file names of the examples, under the example settings.\<close>

lemma demo_plain_files [simp]:
  "plain_file demo_config ''a'' = Some ''a''"
  "plain_file demo_config ''b'' = Some ''b''"
  "plain_file demo_config ''c'' = Some ''c''"
  "plain_file demo_config ''key-1.json'' = Some ''key-1.json''"
  by (rule plain_file_plain, simp add: plain_name_def)+

lemma demo_alias [simp]: "plain_file demo_config ''./a'' = Some ''a''"
  by (simp add: plain_file_def path_join_def path_normalize_def norm_step_def AUTH_DIR_def
      demo_config_def)

lemma demo_outside [simp]: "plain_file demo_config ''../x'' = None"
  by (simp add: plain_file_def path_join_def path_normalize_def norm_step_def AUTH_DIR_def
      demo_config_def)

text \<open>
  C3, as amended. A SessionFileSet is the object \<open>file_set es\<close>, with string contents.
  \<^verbatim>\<open>saveSessionLocally\<close> never throws. When the directory is missing and cannot be made,
  nothing is written. Otherwise the files are written in the order of the entries up to the
  first write that throws: the entries before it have been written, the entries after it
  are not attempted, and of the write that threw there is what the file system left. A
  failure prints one error line and the success line is not printed; with no failure every
  entry is written and the success line is printed.
\<close>

theorem save_stops_at_first_failure:
  "(auth_dir w = None \<and> mkdir_fails (fsys w) \<longrightarrow>
      saveSessionLocally cfg (file_set es) w = console_log ErrSave w) \<and>
   (\<not> (auth_dir w = None \<and> mkdir_fails (fsys w)) \<and>
    (\<forall>(f, s)\<in>set es. fs_write (fsys w) f s = Stored) \<longrightarrow>
      saveSessionLocally cfg (file_set es) w =
        console_log LogSaved (w\<lparr>auth_dir := Some (written cfg w es (dir_or_empty w))\<rparr>)) \<and>
   (\<not> (auth_dir w = None \<and> mkdir_fails (fsys w)) \<and> es = pre @ (k, s) # post \<and>
    (\<forall>(f, t)\<in>set pre. fs_write (fsys w) f t = Stored) \<and> fs_write (fsys w) k s \<noteq> Stored \<longrightarrow>
      saveSessionLocally cfg (file_set es) w =
        console_log ErrSave
          (w\<lparr>auth_dir :=
             Some (left_by_failure cfg w k (fs_write (fsys w) k s)
                     (written cfg w pre (dir_or_empty w)))\<rparr>))"
proof (intro conjI impI)
  assume "auth_dir w = None \<and> mkdir_fails (fsys w)"
  then show "saveSessionLocally cfg (file_set es) w = console_log ErrSave w"
    by (simp add: save_no_directory)
next
  assume a: "\<not> (auth_dir w = None \<and> mkdir_fails (fsys w)) \<and>
    (\<forall>(f, s)\<in>set es. fs_write (fsys w) f s = Stored)"
  then show "saveSessionLocally cfg (file_set es) w =
      console_log LogSaved (w\<lparr>auth_dir := Some (written cfg w es (dir_or_empty w))\<rparr>)"
    by (intro save_all_written) simp_all
next
  assume a: "\<not> (auth_dir w = None \<and> mkdir_fails (fsys w)) \<and> es = pre @ (k, s) # post \<and>
    (\<forall>(f, t)\<in>set pre. fs_write (fsys w) f t = Stored) \<and> fs_write (fsys w) k s \<noteq> Stored"
  then have "saveSessionLocally cfg (file_set (pre @ (k, s) # post)) w =
      console_log ErrSave
        (w\<lparr>auth_dir :=
           Some (left_by_failure cfg w k (fs_write (fsys w) k s)
                   (written cfg w pre (dir_or_empty w)))\<rparr>)"
    by (intro save_stops_at_failure) simp_all
  with a show "saveSessionLocally cfg (file_set es) w =
      console_log ErrSave
        (w\<lparr>auth_dir :=
           Some (left_by_failure cfg w k (fs_write (fsys w) k s)
                   (written cfg w pre (dir_or_empty w)))\<rparr>)"
    by simp
qed

theorem save_stops_at_first_failure_witness:
  "fs_write (fsys (fresh None (breaking ''b'') [] :: string world)) ''b'' ''2'' = Broken [] \<and>
   saveSessionLocally demo_config (file_set [(''creds.json'', ''{}''), (''b'', ''2''), (''c'', ''3'')])
       (fresh None (breaking ''b'') [] :: string world) =
     console_log ErrSave
       ((fresh None (breaking ''b'') [])\<lparr>auth_dir := Some [(''creds.json'', ''{}''), (''b'', [])]\<rparr>)"
proof -
  let ?w = "fresh None (breaking ''b'') [] :: string world"
  have a: "\<not> (auth_dir ?w = None \<and> mkdir_fails (fsys ?w)) \<and>
      [(''creds.json'', ''{}''), (''b'', ''2''), (''c'', ''3'')] =
        [(''creds.json'', ''{}'')] @ (''b'', ''2'') # [(''c'', ''3'')] \<and>
      (\<forall>(f, t)\<in>set [(''creds.json'', ''{}'')]. fs_write (fsys ?w) f t = Stored) \<and>
      fs_write (fsys ?w) ''b'' ''2'' \<noteq> Stored"
    by (simp add: fresh_def breaking_def healthy_def)
  have b: "fs_write (fsys ?w) ''b'' ''2'' = Broken []"
    by (simp add: fresh_def breaking_def healthy_def)
  have c: "left_by_failure demo_config ?w ''b'' (Broken [])
      (written demo_config ?w [(''creds.json'', ''{}'')] (dir_or_empty ?w)) =
      [(''creds.json'', ''{}''), (''b'', [])]"
    by (simp add: left_by_failure_def stored_def file_key_def dir_or_empty_def fresh_def
        breaking_def healthy_def)
  note th = save_stops_at_first_failure
    [where w = ?w and cfg = demo_config and pre = "[(''creds.json'', ''{}'')]" and k = "''b''"
       and s = "''2''" and post = "[(''c'', ''3'')]"
       and es = "[(''creds.json'', ''{}''), (''b'', ''2''), (''c'', ''3'')]",
     THEN conjunct2, THEN conjunct2, rule_format, OF a]
  from th b c show ?thesis by simp
qed

text \<open>
  C3 as stated fails: the write of \<^verbatim>\<open>a\<close> throws and \<^verbatim>\<open>b\<close>, which the file system would
  store, is never written.
\<close>

theorem failed_write_skips_the_rest:
  "fs_write (fsys (fresh None (refusing ''a'') [] :: string world)) ''a'' ''1'' = Refused \<and>
   fs_write (fsys (fresh None (refusing ''a'') [] :: string world)) ''b'' ''2'' = Stored \<and>
   auth_dir (saveSessionLocally demo_config (file_set [(''a'', ''1''), (''b'', ''2'')])
       (fresh None (refusing ''a'') [] :: string world)) = Some [] \<and>
   console (saveSessionLocally demo_config (file_set [(''a'', ''1''), (''b'', ''2'')])
       (fresh None (refusing ''a'') [] :: string world)) = [ErrSave] \<and>
   writeFileSync demo_config ''b'' (JStr ''2'')
       ((fresh None (refusing ''a'') [] :: string world)\<lparr>auth_dir := Some []\<rparr>) =
     (Normal, (fresh None (refusing ''a'') [])\<lparr>auth_dir := Some [(''b'', ''2'')]\<rparr>)"
  by (simp add: fresh_def file_set_def saveSessionLocally_def save_try_def ensure_dir_def
      writeFileSync_def put_file_def file_key_def console_log_def refusing_def healthy_def)

lemma provider_saves_bundle:
  assumes "\<not> hasLocalSession cfg w" and "net w = fails @ r # rs"
    and "\<forall>x\<in>set fails. \<not> truthy (fetch_value x)" and "fetch_value r = file_set es"
    and "\<not> (auth_dir w = None \<and> mkdir_fails (fsys w))"
    and "\<forall>(f, s)\<in>set es. fs_write (fsys w) f s = Stored"
  shows "\<exists>w2. getAuthState load cfg w =
           useMultiFileAuthState load
             (console_log LogSaved (w2\<lparr>auth_dir := Some (written cfg w es (dir_or_empty w))\<rparr>)) \<and>
           net w2 = rs \<and> gets w2 = gets w + length fails + 1"
proof -
  from fetch_loop_fails [OF assms(3), of cfg "r # rs" w] assms(2) obtain w1 where
    l: "fetch_loop cfg (net w) w = fetch_loop cfg (r # rs) w1"
    and g: "gets w1 = gets w + length fails"
    by auto
  let ?w2 = "(snd (fetchSessionFromManager r w1))\<lparr>net := rs\<rparr>"
  have t: "truthy (fetch_value r)"
    by (simp add: assms(4) file_set_def)
  then have e: "fetch_loop cfg (net w) w = (Some (file_set es), ?w2)"
    using l assms(4) by (simp add: fetch_loop_Cons)
  have "same_supervisor w (snd (fetch_loop cfg (net w) w))"
    by (rule fetch_loop_supervisor)
  then have sup: "fsys ?w2 = fsys w"
    by (simp add: e same_supervisor_def)
  have "auth_dir (snd (fetch_loop cfg (net w) w)) = auth_dir w"
    by (rule fetch_loop_store)
  then have st: "auth_dir ?w2 = auth_dir w"
    by (simp add: e)
  then have d: "dir_or_empty ?w2 = dir_or_empty w"
    by (simp add: dir_or_empty_def)
  have k: "written cfg ?w2 = written cfg w"
    using sup by (rule written_fsys)
  have "saveSessionLocally cfg (file_set es) ?w2 =
          console_log LogSaved (?w2\<lparr>auth_dir := Some (written cfg ?w2 es (dir_or_empty ?w2))\<rparr>)"
    using assms(5,6) sup st by (intro save_all_written) simp_all
  then have "getAuthState load cfg w =
      useMultiFileAuthState load
        (console_log LogSaved (?w2\<lparr>auth_dir := Some (written cfg w es (dir_or_empty w))\<rparr>))"
    using assms(1) e d k by (simp add: getAuthState_def)
  moreover have "net ?w2 = rs" and "gets ?w2 = gets w + length fails + 1"
    by (simp_all add: fetch_requests g)
  ultimately show ?thesis by blast
qed

text \<open>
  C8, as amended. Let the names of a SessionFileSet stand for files directly inside the
  session directory, no two names for the same file. When the directory exists or can be
  made and every write is stored, saving the set leaves every entry in the directory,
  unchanged, in the file its name stands for; and in \<^verbatim>\<open>getAuthState\<close>, when the first reply
  carries the set, the library loads from exactly that directory.
\<close>

theorem save_then_load_round_trip:
  assumes "\<not> (auth_dir w = None \<and> mkdir_fails (fsys w))"
    and "\<forall>(f, s)\<in>set es. fs_write (fsys w) f s = Stored"
    and "\<forall>f\<in>fst ` set es. file_key cfg w f \<noteq> None"
    and "distinct (map (\<lambda>e. file_key cfg w (fst e)) es)"
  shows "auth_dir (saveSessionLocally cfg (file_set es) w) =
           Some (written cfg w es (dir_or_empty w)) \<and>
         (\<forall>(f, s)\<in>set es. \<exists>k. file_key cfg w f = Some k \<and>
            map_of (written cfg w es (dir_or_empty w)) k = Some s) \<and>
         (\<not> hasLocalSession cfg w \<and> net w = r # rs \<and> fetch_value r = file_set es \<longrightarrow>
            auth_dir (snd (getAuthState load cfg w)) = Some (written cfg w es (dir_or_empty w)) \<and>
            fst (getAuthState load cfg w) =
              (case load (Some (written cfg w es (dir_or_empty w))) of
                 Inl e \<Rightarrow> Threw e | Inr st \<Rightarrow> Returned st))"
proof (intro conjI impI)
  show "auth_dir (saveSessionLocally cfg (file_set es) w) = Some (written cfg w es (dir_or_empty w))"
    by (simp add: save_all_written [OF assms(1,2)] console_log_def)
  show "\<forall>(f, s)\<in>set es. \<exists>k. file_key cfg w f = Some k \<and>
      map_of (written cfg w es (dir_or_empty w)) k = Some s"
  proof (clarify)
    fix f s
    assume m: "(f, s) \<in> set es"
    with assms(3) obtain k where k: "file_key cfg w f = Some k"
      by force
    from map_of_written [OF assms(4) m k]
    show "\<exists>k. file_key cfg w f = Some k \<and> map_of (written cfg w es (dir_or_empty w)) k = Some s"
      using k by simp
  qed
next
  assume a: "\<not> hasLocalSession cfg w \<and> net w = r # rs \<and> fetch_value r = file_set es"
  then have n: "net w = [] @ r # rs" by simp
  from a provider_saves_bundle [OF _ n _ _ assms(1,2), where load = load] obtain w2 where
    g: "getAuthState load cfg w =
          useMultiFileAuthState load
            (console_log LogSaved (w2\<lparr>auth_dir := Some (written cfg w es (dir_or_empty w))\<rparr>))"
    by auto
  show "auth_dir (snd (getAuthState load cfg w)) = Some (written cfg w es (dir_or_empty w))"
    by (simp add: g useMultiFileAuthState_snd console_log_def)
  show "fst (getAuthState load cfg w) =
          (case load (Some (written cfg w es (dir_or_empty w))) of
             Inl e \<Rightarrow> Threw e | Inr st \<Rightarrow> Returned st)"
    by (simp add: g useMultiFileAuthState_fst console_log_def)
qed

theorem save_then_load_round_trip_witness:
  "file_key demo_config (fresh None healthy [] :: string world) ''creds.json'' = Some ''creds.json'' \<and>
   file_key demo_config (fresh None healthy [] :: string world) ''key-1.json'' = Some ''key-1.json'' \<and>
   auth_dir (snd (getAuthState demo_load demo_config
     (fresh None healthy
        [Body (JObj [(''files'', file_set [(''creds.json'', ''{}''), (''key-1.json'', ''k'')])])]))) =
     Some [(''creds.json'', ''{}''), (''key-1.json'', ''k'')] \<and>
   fst (getAuthState demo_load demo_config
     (fresh None healthy
        [Body (JObj [(''files'', file_set [(''creds.json'', ''{}''), (''key-1.json'', ''k'')])])])) =
     Returned ''{}''"
proof -
  let ?es = "[(''creds.json'', ''{}''), (''key-1.json'', ''k'')]"
  let ?r = "Body (JObj [(''files'', file_set ?es)])"
  let ?w = "fresh None healthy [?r] :: string world"
  have a: "\<not> (auth_dir ?w = None \<and> mkdir_fails (fsys ?w))"
    by (simp add: fresh_def healthy_def)
  have b: "\<forall>(f, s)\<in>set ?es. fs_write (fsys ?w) f s = Stored"
    by (simp add: fresh_def healthy_def)
  have c: "\<forall>f\<in>fst ` set ?es. file_key demo_config ?w f \<noteq> None"
    by (simp add: file_key_def)
  have d: "distinct (map (\<lambda>e. file_key demo_config ?w (fst e)) ?es)"
    by (simp add: file_key_def fresh_def healthy_def)
  have e: "\<not> hasLocalSession demo_config ?w \<and> net ?w = ?r # [] \<and> fetch_value ?r = file_set ?es"
    by (simp add: hasLocalSession_iff fresh_def fetch_value_def)
  have f: "written demo_config ?w ?es (dir_or_empty ?w) = ?es"
    by (simp add: stored_def file_key_def dir_or_empty_def fresh_def healthy_def)
  have g: "file_key demo_config (fresh None healthy [] :: string world) ''creds.json'' = Some ''creds.json'' \<and>
      file_key demo_config (fresh None healthy [] :: string world) ''key-1.json'' = Some ''key-1.json''"
    by (simp add: file_key_def fresh_def healthy_def)
  from save_then_load_round_trip [OF a b c d, of ?r "[]" demo_load, THEN conjunct2, THEN conjunct2]
    e f g show ?thesis
    by (simp add: demo_load_def)
qed

text \<open>
  C8 as stated fails, in two ways. The write of \<^verbatim>\<open>key-1.json\<close> throws, the error is
  swallowed, and the state is loaded from a directory that lacks this entry of the set. And
  with no failure at all, the names \<^verbatim>\<open>a\<close> and \<^verbatim>\<open>./a\<close> are one file, which ends with the
  text of the second entry, so that the first entry is lost.
\<close>

theorem round_trip_lost_entries:
  "fst (getAuthState demo_load demo_config
     (fresh None (refusing ''key-1.json'')
        [Body (JObj [(''files'', file_set [(''creds.json'', ''{}''), (''key-1.json'', ''k'')])])])) =
     Returned ''{}'' \<and>
   auth_dir (snd (getAuthState demo_load demo_config
     (fresh None (refusing ''key-1.json'')
        [Body (JObj [(''files'', file_set [(''creds.json'', ''{}''), (''key-1.json'', ''k'')])])]))) =
     Some [(''creds.json'', ''{}'')] \<and>
   map_of [(''creds.json'', ''{}'')] ''key-1.json'' = None \<and>
   saveSessionLocally demo_config (file_set [(''a'', ''1''), (''./a'', ''2'')])
       (fresh None healthy [] :: string world) =
     console_log LogSaved ((fresh None healthy [])\<lparr>auth_dir := Some [(''a'', ''2'')]\<rparr>)"
  by (simp add: fetch_value_def getAuthState_def hasLocalSession_iff fresh_def fetch_loop_Cons
      fetchSessionFromManager_def console_log_def saveSessionLocally_def save_try_def file_set_def
      ensure_dir_def writeFileSync_def put_file_def file_key_def useMultiFileAuthState_def
      demo_load_def refusing_def healthy_def)

section \<open>Outcomes of the session provider\<close>

lemma getAuthState_cases:
  "(\<exists>w'. getAuthState load cfg w = (Pending, w')) \<or>
   (\<exists>w'. getAuthState load cfg w = useMultiFileAuthState load w')"
  by (cases "fetch_loop cfg (net w) w") (auto simp: getAuthState_def split: option.splits)

lemma getAuthState_Threw:
  assumes "fst (getAuthState load cfg w) = Threw e"
  shows "load (auth_dir (snd (getAuthState load cfg w))) = Inl e"
proof -
  from getAuthState_cases [of load cfg w] assms obtain w' where
    g: "getAuthState load cfg w = useMultiFileAuthState load w'"
    by auto
  with assms show ?thesis
    by (auto simp: useMultiFileAuthState_def split: sum.splits)
qed

lemma fetch_loop_gets: "gets w < gets (snd (fetch_loop cfg rs w))"
proof (induction rs arbitrary: w)
  case Nil
  show ?case by (simp add: console_log_def)
next
  case (Cons r rs)
  let ?w2 = "(console_log LogRetrying (snd (fetchSessionFromManager r w)))
                \<lparr>sleeps := sleeps w @ [SESSION_RETRY_INTERVAL cfg]\<rparr>"
  have "gets ?w2 = Suc (gets w)"
    by (simp add: console_log_def fetch_requests)
  with Cons.IH [of ?w2] show ?case
    by (simp add: fetch_loop_Cons fetch_requests)
qed

lemma getAuthState_gets:
  assumes "\<not> hasLocalSession cfg w"
  shows "gets w < gets (snd (getAuthState load cfg w))"
proof (cases "fst (fetch_loop cfg (net w) w)")
  case None
  with assms show ?thesis
    using fetch_loop_gets [of w cfg "net w"] by (simp add: getAuthState_def case_prod_beta)
next
  case (Some files)
  have "same_requests (snd (fetch_loop cfg (net w) w))
          (saveSessionLocally cfg files (snd (fetch_loop cfg (net w) w)))"
    by (rule saveSessionLocally_requests)
  with Some assms show ?thesis
    using fetch_loop_gets [of w cfg "net w"]
    by (simp add: getAuthState_def case_prod_beta useMultiFileAuthState_snd same_requests_def)
qed

lemma startBot_snd_gets: "gets (snd (startBot load cfg w)) = gets (snd (getAuthState load cfg w))"
  by (simp add: startBot_def case_prod_beta split: outcome.splits)

lemma call_startBot_gets: "gets (call_startBot load cfg w) = gets (snd (getAuthState load cfg w))"
  using startBot_snd_gets [of load cfg w]
  by (simp add: call_startBot_def console_log_def case_prod_beta split: outcome.splits)

section \<open>Connection supervisor\<close>

lemma and_then_Normal [simp]: "and_then (Normal, w) f = f w"
  by (simp add: and_then_def)

lemma and_then_Thrown [simp]: "and_then (Thrown, w) f = (Thrown, w)"
  by (simp add: and_then_def)

lemma close_logged_out:
  assumes "connection u = Some ''close''" and "statusCode u = Some DisconnectReason_loggedOut"
    and "rm_ok w"
  shows "on_connection_update cfg u w =
           (Normal, w\<lparr>auth_dir := None, isFirstConnect := True,
                       timers := timers w @ [RECONNECT_INTERVAL cfg],
                       console := console w @ [LogDisconnected, LogLoggedOut]\<rparr>)"
  using assms
  by (cases w)
     (auto simp: on_connection_update_def console_log_def rmSync_def setTimeout_startBot_def
        rm_ok_def split: option.splits)

lemma close_logged_out_thrown:
  assumes "connection u = Some ''close''" and "statusCode u = Some DisconnectReason_loggedOut"
    and "auth_dir w = Some d" and "fs_rm (fsys w) d = Some d'"
  shows "on_connection_update cfg u w =
           (Thrown, w\<lparr>auth_dir := Some d',
                       console := console w @ [LogDisconnected, LogLoggedOut]\<rparr>)"
  using assms
  by (cases w) (simp add: on_connection_update_def console_log_def rmSync_def)

lemma close_restart_required:
  assumes "connection u = Some ''close''" and "statusCode u = Some DisconnectReason_restartRequired"
  shows "on_connection_update cfg u w =
           (Normal, w\<lparr>timers := timers w @ [3000], console := console w @ [LogDisconnected]\<rparr>)"
  using assms
  by (simp add: on_connection_update_def console_log_def setTimeout_startBot_def
      DisconnectReason_loggedOut_def DisconnectReason_restartRequired_def)

lemma close_other:
  assumes "connection u = Some ''close''" and "statusCode u \<noteq> Some DisconnectReason_loggedOut"
    and "statusCode u \<noteq> Some DisconnectReason_restartRequired"
  shows "on_connection_update cfg u w =
           (Normal, w\<lparr>timers := timers w @ [RECONNECT_INTERVAL cfg],
                       console := console w @ [LogDisconnected, LogReconnecting]\<rparr>)"
  using assms
  by (simp add: on_connection_update_def console_log_def setTimeout_startBot_def)

lemma step_Emit_connection:
  "h < length (handles w) \<Longrightarrow>
   step lib cfg (Emit h (ConnectionUpdate u)) w = settle (on_connection_update cfg u w)"
  by (simp add: step_def handle_event_def)

text \<open>
  C1, as amended. A \<^verbatim>\<open>close\<close> update whose status code is \<^verbatim>\<open>DisconnectReason.loggedOut\<close>,
  emitted by a handle of the program, when the removal of the session directory does not
  throw (as it never does when the directory is absent): the session directory is gone
  afterwards, \<^verbatim>\<open>isFirstConnect\<close> is true, one \<^verbatim>\<open>startBot\<close> is scheduled after
  \<^verbatim>\<open>RECONNECT_INTERVAL\<close>, and nothing else changes but the console. There is no local
  session left, so when that timer fires \<^verbatim>\<open>startBot\<close> goes to the manager: at least one
  request is issued.
\<close>

theorem logged_out_wipes_and_restarts:
  assumes "h < length (handles w)" and "connection u = Some ''close''"
    and "statusCode u = Some DisconnectReason_loggedOut" and "rm_ok w"
  shows "step lib cfg (Emit h (ConnectionUpdate u)) w =
           w\<lparr>auth_dir := None, isFirstConnect := True,
             timers := timers w @ [RECONNECT_INTERVAL cfg],
             console := console w @ [LogDisconnected, LogLoggedOut]\<rparr> \<and>
         \<not> hasLocalSession cfg (step lib cfg (Emit h (ConnectionUpdate u)) w) \<and>
         gets w < gets (run lib cfg [Emit h (ConnectionUpdate u), Timeout (length (timers w))] w)"
proof -
  let ?w1 = "w\<lparr>auth_dir := None, isFirstConnect := True,
             timers := timers w @ [RECONNECT_INTERVAL cfg],
             console := console w @ [LogDisconnected, LogLoggedOut]\<rparr>"
  let ?w0 = "w\<lparr>auth_dir := None, isFirstConnect := True,
             console := console w @ [LogDisconnected, LogLoggedOut]\<rparr>"
  have s: "step lib cfg (Emit h (ConnectionUpdate u)) w = ?w1"
    by (simp add: step_Emit_connection [OF assms(1)] close_logged_out [OF assms(2,3,4)] settle_def)
  have n: "\<not> hasLocalSession cfg ?w0"
    by (simp add: hasLocalSession_iff)
  have "step lib cfg (Timeout (length (timers w))) ?w1 = call_startBot (lib_load lib) cfg ?w0"
    by (simp add: step_def)
  then have "gets (step lib cfg (Timeout (length (timers w))) ?w1) =
      gets (snd (getAuthState (lib_load lib) cfg ?w0))"
    by (simp add: call_startBot_gets)
  with getAuthState_gets [OF n, of "lib_load lib"]
  have "gets w < gets (step lib cfg (Timeout (length (timers w))) ?w1)"
    by simp
  then show ?thesis
    by (simp add: s hasLocalSession_iff)
qed

lemma demo_world_eq:
  "demo_world =
     \<lparr>auth_dir = Some [(''creds.json'', ''{}'')], fsys = healthy,
      net = [Body (JObj [(''files'', file_set [(''creds.json'', ''{2}'')])])], gets = 0,
      sleeps = [], console = [LogStarting, LogUsingLocal],
      isFirstConnect = True, sock = Some 0, handles = [''{}''], timers = [], outbox = []\<rparr>"
  by (simp add: demo_world_def main_def call_startBot_def startBot_def getAuthState_def
      hasLocalSession_iff fresh_def useMultiFileAuthState_def console_log_def
      demo_library_def demo_load_def healthy_def)

lemma stuck_world_eq:
  "stuck_world =
     \<lparr>auth_dir = Some [(''creds.json'', ''{}'')], fsys = stuck,
      net = [], gets = 0, sleeps = [], console = [LogStarting, LogUsingLocal],
      isFirstConnect = True, sock = Some 0, handles = [''{}''], timers = [], outbox = []\<rparr>"
  by (simp add: stuck_world_def main_def call_startBot_def startBot_def getAuthState_def
      hasLocalSession_iff fresh_def useMultiFileAuthState_def console_log_def
      demo_library_def demo_load_def stuck_def healthy_def)

lemma quick_world_eq:
  "quick_world =
     \<lparr>auth_dir = Some [(''creds.json'', ''{}'')], fsys = healthy,
      net = [], gets = 0, sleeps = [], console = [LogStarting, LogUsingLocal],
      isFirstConnect = True, sock = Some 0, handles = [''{}''], timers = [], outbox = []\<rparr>"
  by (simp add: quick_world_def main_def call_startBot_def startBot_def getAuthState_def
      hasLocalSession_iff fresh_def useMultiFileAuthState_def console_log_def
      demo_library_def demo_load_def healthy_def)

theorem logged_out_wipes_and_restarts_witness:
  "0 < length (handles demo_world) \<and> rm_ok demo_world \<and>
   auth_dir (step demo_library demo_config
      (Emit 0 (ConnectionUpdate \<lparr>connection = Some ''close'', statusCode = Some 401\<rparr>)) demo_world) = None \<and>
   isFirstConnect (step demo_library demo_config
      (Emit 0 (ConnectionUpdate \<lparr>connection = Some ''close'', statusCode = Some 401\<rparr>)) demo_world) \<and>
   timers (step demo_library demo_config
      (Emit 0 (ConnectionUpdate \<lparr>connection = Some ''close'', statusCode = Some 401\<rparr>)) demo_world) = [5000]"
proof -
  let ?u = "\<lparr>connection = Some ''close'', statusCode = Some 401\<rparr>"
  have a: "0 < length (handles demo_world)" by (simp add: demo_world_eq)
  have b: "connection ?u = Some ''close''" by simp
  have c: "statusCode ?u = Some DisconnectReason_loggedOut"
    by (simp add: DisconnectReason_loggedOut_def)
  have d: "rm_ok demo_world" by (simp add: demo_world_eq rm_ok_def healthy_def)
  from logged_out_wipes_and_restarts [OF a b c d, of demo_library demo_config] a d show ?thesis
    by (simp add: demo_world_eq demo_config_def)
qed

text \<open>
  C1 as stated fails. The program runs on a file system that refuses to remove the session
  directory, and the connection has been opened once, so that \<^verbatim>\<open>isFirstConnect\<close> is false.
  On the logged-out \<^verbatim>\<open>close\<close> the removal throws inside the handler: the directory is still
  there, the flag is still false, and no restart is scheduled.
\<close>

theorem failed_removal_skips_restart:
  "auth_dir (run demo_library demo_config
      [Emit 0 (ConnectionUpdate \<lparr>connection = Some ''open'', statusCode = None\<rparr>),
       Emit 0 (ConnectionUpdate \<lparr>connection = Some ''close'', statusCode = Some 401\<rparr>)]
      stuck_world) = Some [(''creds.json'', ''{}'')] \<and>
   \<not> isFirstConnect (run demo_library demo_config
      [Emit 0 (ConnectionUpdate \<lparr>connection = Some ''open'', statusCode = None\<rparr>),
       Emit 0 (ConnectionUpdate \<lparr>connection = Some ''close'', statusCode = Some 401\<rparr>)]
      stuck_world) \<and>
   timers (run demo_library demo_config
      [Emit 0 (ConnectionUpdate \<lparr>connection = Some ''open'', statusCode = None\<rparr>),
       Emit 0 (ConnectionUpdate \<lparr>connection = Some ''close'', statusCode = Some 401\<rparr>)]
      stuck_world) = []"
  by (simp add: stuck_world_eq step_def handle_event_def settle_def on_connection_update_def
      DisconnectReason_loggedOut_def console_log_def sock_call_def rmSync_def stuck_def healthy_def)

lemma startBot_local:
  assumes "hasLocalSession cfg w"
  shows "startBot load cfg w =
     (case load (auth_dir w) of
        Inl e \<Rightarrow> (Threw e, console_log LogUsingLocal w)
      | Inr st \<Rightarrow> (Returned (), (console_log LogUsingLocal w)
                      \<lparr>sock := Some (length (handles w)), handles := handles w @ [st]\<rparr>))"
  using assms
  by (simp add: startBot_def getAuthState_def useMultiFileAuthState_def console_log_def
      split: sum.splits)

text \<open>
  C5, as amended. A \<^verbatim>\<open>close\<close> update whose status code is
  \<^verbatim>\<open>DisconnectReason.restartRequired\<close>: the directory and the auth states of the handles are
  untouched, and one \<^verbatim>\<open>startBot\<close> is scheduled after 3000 ms, nothing else changing but the
  console. The delay is the literal 3000 whatever \<^verbatim>\<open>RECONNECT_INTERVAL\<close> is: it is the
  shorter of the two exactly when the settings put \<^verbatim>\<open>RECONNECT_INTERVAL\<close> above 3000. With
  a local session, the reopening issues no request, leaves the directory alone and makes the
  new handle from what the library loads from it.
\<close>

theorem restart_required_reopens:
  assumes "h < length (handles w)" and "connection u = Some ''close''"
    and "statusCode u = Some DisconnectReason_restartRequired"
  shows "step lib cfg (Emit h (ConnectionUpdate u)) w =
           w\<lparr>timers := timers w @ [3000], console := console w @ [LogDisconnected]\<rparr> \<and>
         auth_dir (step lib cfg (Emit h (ConnectionUpdate u)) w) = auth_dir w \<and>
         handles (step lib cfg (Emit h (ConnectionUpdate u)) w) = handles w \<and>
         last (timers (step lib cfg (Emit h (ConnectionUpdate u)) w)) = 3000 \<and>
         (last (timers (step lib cfg (Emit h (ConnectionUpdate u)) w)) < RECONNECT_INTERVAL cfg) =
           (3000 < RECONNECT_INTERVAL cfg) \<and>
         (hasLocalSession cfg w \<longrightarrow>
            gets (run lib cfg [Emit h (ConnectionUpdate u), Timeout (length (timers w))] w) = gets w \<and>
            auth_dir (run lib cfg [Emit h (ConnectionUpdate u), Timeout (length (timers w))] w) = auth_dir w \<and>
            (\<forall>st. lib_load lib (auth_dir w) = Inr st \<longrightarrow>
               handles (run lib cfg [Emit h (ConnectionUpdate u), Timeout (length (timers w))] w) =
                 handles w @ [st]))"
proof -
  let ?w1 = "w\<lparr>timers := timers w @ [3000], console := console w @ [LogDisconnected]\<rparr>"
  let ?w0 = "w\<lparr>console := console w @ [LogDisconnected]\<rparr>"
  have s: "step lib cfg (Emit h (ConnectionUpdate u)) w = ?w1"
    by (simp add: step_Emit_connection [OF assms(1)] close_restart_required [OF assms(2,3)] settle_def)
  have t: "step lib cfg (Timeout (length (timers w))) ?w1 = call_startBot (lib_load lib) cfg ?w0"
    by (simp add: step_def)
  have l: "hasLocalSession cfg w \<Longrightarrow> hasLocalSession cfg ?w0"
    by (simp add: hasLocalSession_iff)
  have "hasLocalSession cfg w \<Longrightarrow>
      gets (call_startBot (lib_load lib) cfg ?w0) = gets w \<and>
      auth_dir (call_startBot (lib_load lib) cfg ?w0) = auth_dir w \<and>
      (\<forall>st. lib_load lib (auth_dir w) = Inr st \<longrightarrow>
         handles (call_startBot (lib_load lib) cfg ?w0) = handles w @ [st])"
    by (simp add: call_startBot_def startBot_local [OF l] console_log_def split: sum.splits)
  then show ?thesis
    by (simp add: s t)
qed

theorem restart_required_reopens_witness:
  "0 < length (handles demo_world) \<and> hasLocalSession demo_config demo_world \<and>
   timers (step demo_library demo_config
      (Emit 0 (ConnectionUpdate \<lparr>connection = Some ''close'', statusCode = Some 515\<rparr>)) demo_world) = [3000] \<and>
   auth_dir (step demo_library demo_config
      (Emit 0 (ConnectionUpdate \<lparr>connection = Some ''close'', statusCode = Some 515\<rparr>)) demo_world) =
     Some [(''creds.json'', ''{}'')] \<and>
   handles (run demo_library demo_config
      [Emit 0 (ConnectionUpdate \<lparr>connection = Some ''close'', statusCode = Some 515\<rparr>), Timeout 0]
      demo_world) = [''{}'', ''{}'']"
proof -
  let ?u = "\<lparr>connection = Some ''close'', statusCode = Some 515\<rparr>"
  have a: "0 < length (handles demo_world)" by (simp add: demo_world_eq)
  have b: "connection ?u = Some ''close''" by simp
  have c: "statusCode ?u = Some DisconnectReason_restartRequired"
    by (simp add: DisconnectReason_restartRequired_def)
  have e: "hasLocalSession demo_config demo_world"
    by (simp add: demo_world_eq hasLocalSession_iff healthy_def)
  have f: "lib_load demo_library (auth_dir demo_world) = Inr ''{}''"
    by (simp add: demo_world_eq demo_library_def demo_load_def)
  have g: "timers demo_world = []" "auth_dir demo_world = Some [(''creds.json'', ''{}'')]"
    "handles demo_world = [''{}'']"
    by (simp_all add: demo_world_eq)
  note th = restart_required_reopens [OF a b c, of demo_library demo_config]
  from th [THEN conjunct1] have t: "timers (step demo_library demo_config
      (Emit 0 (ConnectionUpdate ?u)) demo_world) = [3000]"
    by (simp add: g)
  from th [THEN conjunct2] e f have "auth_dir (step demo_library demo_config
      (Emit 0 (ConnectionUpdate ?u)) demo_world) = Some [(''creds.json'', ''{}'')] \<and>
    handles (run demo_library demo_config [Emit 0 (ConnectionUpdate ?u), Timeout 0] demo_world) =
      [''{}'', ''{}'']"
    by (simp add: g)
  with t a e show ?thesis by simp
qed

text \<open>
  C5 as stated fails. With \<^verbatim>\<open>RECONNECT_INTERVAL\<close> set to 1000 the reopening after
  restart-required is still scheduled after 3000 ms, while the reconnection after another
  \<^verbatim>\<open>close\<close> is scheduled after 1000 ms: the fixed delay is the longer one.
\<close>

theorem restart_delay_not_shorter:
  "RECONNECT_INTERVAL quick_config = 1000 \<and>
   timers (step demo_library quick_config
      (Emit 0 (ConnectionUpdate \<lparr>connection = Some ''close'', statusCode = Some 515\<rparr>)) quick_world) =
     [3000] \<and>
   timers (step demo_library quick_config
      (Emit 0 (ConnectionUpdate \<lparr>connection = Some ''close'', statusCode = Some 428\<rparr>)) quick_world) =
     [1000]"
  by (simp add: quick_world_eq quick_config_def demo_config_def step_def handle_event_def settle_def
      on_connection_update_def DisconnectReason_loggedOut_def DisconnectReason_restartRequired_def
      console_log_def setTimeout_startBot_def)

lemma close_schedules:
  assumes "connection u = Some ''close''"
    and "statusCode u = Some DisconnectReason_loggedOut \<longrightarrow> rm_ok w"
  shows "fst (on_connection_update cfg u w) = Normal \<and>
         length (timers (snd (on_connection_update cfg u w))) = Suc (length (timers w))"
proof -
  consider "statusCode u = Some DisconnectReason_loggedOut"
    | "statusCode u = Some DisconnectReason_restartRequired"
    | "statusCode u \<noteq> Some DisconnectReason_loggedOut"
      "statusCode u \<noteq> Some DisconnectReason_restartRequired"
    by blast
  then show ?thesis
  proof cases
    case 1
    with assms(2) have "rm_ok w" by simp
    with 1 show ?thesis by (simp add: close_logged_out [OF assms(1)])
  next
    case 2
    then show ?thesis by (simp add: close_restart_required [OF assms(1)])
  next
    case 3
    then show ?thesis by (simp add: close_other [OF assms(1)])
  qed
qed

lemma call_startBot_Threw:
  assumes "fst (getAuthState load cfg w) = Threw e"
  shows "fst (startBot load cfg w) = Threw e \<and>
         call_startBot load cfg w = console_log ErrUnhandledRejection (snd (getAuthState load cfg w))"
  using assms
  by (cases "getAuthState load cfg w") (simp add: call_startBot_def startBot_def)

text \<open>
  C9, as amended. After any number of failed fetches, let a reply carry a file set that is
  saved in full and that the library then refuses to load, with error \<open>e\<close>. Then
  \<^verbatim>\<open>getAuthState\<close> rejects with \<open>e\<close>: no further request is issued and the replies after this
  one are not consumed; \<^verbatim>\<open>startBot\<close> rejects with \<open>e\<close>, makes no handle and schedules
  nothing, and the rejection is printed by the process-level handler. Conversely every
  rejection of \<^verbatim>\<open>getAuthState\<close> is an error of the library's load: failed fetches and failed
  writes never reject. And a \<^verbatim>\<open>close\<close> update is handled by scheduling one \<^verbatim>\<open>startBot\<close>,
  without throwing, unless it is a logged-out one on which the removal of the session
  directory throws.
\<close>

theorem corrupt_bundle_propagates:
  "(\<not> hasLocalSession cfg w \<and> net w = fails @ r # rs \<and> (\<forall>x\<in>set fails. \<not> truthy (fetch_value x)) \<and>
    fetch_value r = file_set es \<and> \<not> (auth_dir w = None \<and> mkdir_fails (fsys w)) \<and>
    (\<forall>(f, s)\<in>set es. fs_write (fsys w) f s = Stored) \<and>
    load (Some (written cfg w es (dir_or_empty w))) = Inl e \<longrightarrow>
      fst (getAuthState load cfg w) = Threw e \<and>
      net (snd (getAuthState load cfg w)) = rs \<and>
      gets (snd (getAuthState load cfg w)) = gets w + length fails + 1 \<and>
      fst (startBot load cfg w) = Threw e \<and>
      call_startBot load cfg w = console_log ErrUnhandledRejection (snd (getAuthState load cfg w)) \<and>
      handles (call_startBot load cfg w) = handles w \<and>
      timers (call_startBot load cfg w) = timers w) \<and>
   (fst (getAuthState load cfg w) = Threw e \<longrightarrow>
      load (auth_dir (snd (getAuthState load cfg w))) = Inl e) \<and>
   (connection u = Some ''close'' \<and> (statusCode u = Some DisconnectReason_loggedOut \<longrightarrow> rm_ok w) \<longrightarrow>
      fst (on_connection_update cfg u w) = Normal \<and>
      length (timers (snd (on_connection_update cfg u w))) = Suc (length (timers w)))"
proof (intro conjI impI)
  assume a: "\<not> hasLocalSession cfg w \<and> net w = fails @ r # rs \<and> (\<forall>x\<in>set fails. \<not> truthy (fetch_value x)) \<and>
    fetch_value r = file_set es \<and> \<not> (auth_dir w = None \<and> mkdir_fails (fsys w)) \<and>
    (\<forall>(f, s)\<in>set es. fs_write (fsys w) f s = Stored) \<and>
    load (Some (written cfg w es (dir_or_empty w))) = Inl e"
  then obtain w2 where
    g: "getAuthState load cfg w =
          useMultiFileAuthState load
            (console_log LogSaved (w2\<lparr>auth_dir := Some (written cfg w es (dir_or_empty w))\<rparr>))"
    and n: "net w2 = rs" and c: "gets w2 = gets w + length fails + 1"
    using provider_saves_bundle [where w = w and fails = fails and r = r and rs = rs and es = es
        and load = load and cfg = cfg]
    by blast
  from a have t: "fst (getAuthState load cfg w) = Threw e"
    by (simp add: g useMultiFileAuthState_fst console_log_def)
  then show "fst (getAuthState load cfg w) = Threw e" .
  show "net (snd (getAuthState load cfg w)) = rs"
    by (simp add: g useMultiFileAuthState_snd console_log_def n)
  show "gets (snd (getAuthState load cfg w)) = gets w + length fails + 1"
    by (simp add: g useMultiFileAuthState_snd console_log_def c)
  from call_startBot_Threw [OF t]
  show "fst (startBot load cfg w) = Threw e"
    and k: "call_startBot load cfg w = console_log ErrUnhandledRejection (snd (getAuthState load cfg w))"
    by simp_all
  have "same_supervisor w (snd (getAuthState load cfg w))"
    by (rule getAuthState_supervisor)
  then show "handles (call_startBot load cfg w) = handles w"
    and "timers (call_startBot load cfg w) = timers w"
    by (simp_all add: k console_log_def same_supervisor_def)
next
  assume "fst (getAuthState load cfg w) = Threw e"
  then show "load (auth_dir (snd (getAuthState load cfg w))) = Inl e"
    by (rule getAuthState_Threw)
next
  assume c: "connection u = Some ''close'' \<and> (statusCode u = Some DisconnectReason_loggedOut \<longrightarrow> rm_ok w)"
  then have c1: "connection u = Some ''close''"
    and c2: "statusCode u = Some DisconnectReason_loggedOut \<longrightarrow> rm_ok w"
    by simp_all
  from close_schedules [OF c1 c2, of cfg]
  show "fst (on_connection_update cfg u w) = Normal"
    and "length (timers (snd (on_connection_update cfg u w))) = Suc (length (timers w))"
    by simp_all
qed

theorem corrupt_bundle_propagates_witness:
  "fst (getAuthState demo_load demo_config
     (fresh None healthy
        [NetError, Body (JObj [(''files'', file_set [(''creds.json'', ''garbage'')])]), NetError])) =
     Threw ''CorruptState'' \<and>
   net (snd (getAuthState demo_load demo_config
     (fresh None healthy
        [NetError, Body (JObj [(''files'', file_set [(''creds.json'', ''garbage'')])]), NetError]))) =
     [NetError] \<and>
   gets (snd (getAuthState demo_load demo_config
     (fresh None healthy
        [NetError, Body (JObj [(''files'', file_set [(''creds.json'', ''garbage'')])]), NetError]))) = 2 \<and>
   handles (call_startBot demo_load demo_config
     (fresh None healthy
        [NetError, Body (JObj [(''files'', file_set [(''creds.json'', ''garbage'')])]), NetError])) = [] \<and>
   length (timers (snd (on_connection_update demo_config
     \<lparr>connection = Some ''close'', statusCode = Some 401\<rparr> demo_world))) = 1"
proof -
  let ?es = "[(''creds.json'', ''garbage'')]"
  let ?r = "Body (JObj [(''files'', file_set ?es)])"
  let ?w = "fresh None healthy [NetError, ?r, NetError] :: string world"
  let ?u = "\<lparr>connection = Some ''close'', statusCode = Some 401\<rparr>"
  have a: "\<not> hasLocalSession demo_config ?w \<and> net ?w = [NetError] @ ?r # [NetError] \<and>
    (\<forall>x\<in>set [NetError]. \<not> truthy (fetch_value x)) \<and>
    fetch_value ?r = file_set ?es \<and> \<not> (auth_dir ?w = None \<and> mkdir_fails (fsys ?w)) \<and>
    (\<forall>(f, s)\<in>set ?es. fs_write (fsys ?w) f s = Stored) \<and>
    demo_load (Some (written demo_config ?w ?es (dir_or_empty ?w))) = Inl ''CorruptState''"
    by (simp add: hasLocalSession_iff fresh_def fetch_value_def dir_or_empty_def demo_load_def
        stored_def file_key_def healthy_def)
  note th = corrupt_bundle_propagates
    [where w = ?w and fails = "[NetError]" and r = ?r and rs = "[NetError]" and es = ?es
       and load = demo_load and e = "''CorruptState''" and cfg = demo_config, THEN conjunct1]
  from th a have p: "fst (getAuthState demo_load demo_config ?w) = Threw ''CorruptState'' \<and>
      net (snd (getAuthState demo_load demo_config ?w)) = [NetError] \<and>
      gets (snd (getAuthState demo_load demo_config ?w)) = gets ?w + length [NetError] + 1 \<and>
      handles (call_startBot demo_load demo_config ?w) = handles ?w"
    by blast
  have b: "connection ?u = Some ''close'' \<and>
      (statusCode ?u = Some DisconnectReason_loggedOut \<longrightarrow> rm_ok demo_world)"
    by (simp add: demo_world_eq rm_ok_def healthy_def)
  have t: "timers demo_world = []" by (simp add: demo_world_eq)
  note th2 = corrupt_bundle_propagates
    [where w = demo_world and u = ?u and cfg = demo_config, THEN conjunct2, THEN conjunct2,
     rule_format, OF b, THEN conjunct2]
  from th2 t have "length (timers (snd (on_connection_update demo_config ?u demo_world))) = 1"
    by simp
  with p show ?thesis by (simp add: fresh_def)
qed

text \<open>
  C9 as stated fails. On a file system that refuses to remove the session directory, the
  handler of a logged-out \<^verbatim>\<open>close\<close> throws: the error is not handled in the supervisor, it
  reaches the process-level handler, which prints it, and no restart is scheduled.
\<close>

theorem failed_removal_escapes_handler:
  "fst (on_connection_update demo_config
      \<lparr>connection = Some ''close'', statusCode = Some 401\<rparr> stuck_world) = Thrown \<and>
   timers (snd (on_connection_update demo_config
      \<lparr>connection = Some ''close'', statusCode = Some 401\<rparr> stuck_world)) = [] \<and>
   console (step demo_library demo_config
      (Emit 0 (ConnectionUpdate \<lparr>connection = Some ''close'', statusCode = Some 401\<rparr>)) stuck_world) =
     [LogStarting, LogUsingLocal, LogDisconnected, LogLoggedOut, ErrUnhandledRejection]"
  by (simp add: stuck_world_eq step_def handle_event_def settle_def on_connection_update_def
      DisconnectReason_loggedOut_def console_log_def rmSync_def stuck_def healthy_def)

section \<open>Inbound messages\<close>

lemma process_msg_skipped:
  "message m = None \<or> fromMe (key m) \<Longrightarrow> process_msg cfg m w = (Normal, w)"
  by (auto simp: process_msg_def split: option.splits)

lemma process_msgs_filter:
  "process_msgs cfg ms w =
     process_msgs cfg (filter (\<lambda>m. message m \<noteq> None \<and> \<not> fromMe (key m)) ms) w"
proof (induction ms arbitrary: w)
  case Nil
  show ?case by simp
next
  case (Cons m ms)
  show ?case
  proof (cases "message m = None \<or> fromMe (key m)")
    case True
    then have "process_msg cfg m w = (Normal, w)" by (rule process_msg_skipped)
    with True Cons.IH [of w] show ?thesis by auto
  next
    case False
    have "and_then (process_msg cfg m w) (process_msgs cfg ms) =
          and_then (process_msg cfg m w)
            (process_msgs cfg (filter (\<lambda>m. message m \<noteq> None \<and> \<not> fromMe (key m)) ms))"
      by (cases "process_msg cfg m w" rule: prod.exhaust [case_names Pair])
         (simp add: and_then_def Cons.IH split: completion.splits)
    with False show ?thesis by simp
  qed
qed

text \<open>
  C10. A batch whose type is not \<^verbatim>\<open>notify\<close> is ignored. In a \<^verbatim>\<open>notify\<close> batch, a message
  without content or sent by the bot itself changes nothing: no read receipt, no presence
  update, no reply, no console line; the handler does to the batch what it does to the batch
  without these messages. So a batch of another type, or made of such messages only, leaves
  the whole state as it was.
\<close>

theorem skipped_messages_no_effect:
  "(upsert_type ev \<noteq> ''notify'' \<longrightarrow> on_messages_upsert cfg ev w = (Normal, w)) \<and>
   (message m = None \<or> fromMe (key m) \<longrightarrow> process_msg cfg m w = (Normal, w)) \<and>
   process_msgs cfg ms w =
     process_msgs cfg (filter (\<lambda>m. message m \<noteq> None \<and> \<not> fromMe (key m)) ms) w \<and>
   (upsert_type ev \<noteq> ''notify'' \<or> (\<forall>m\<in>set (messages ev). message m = None \<or> fromMe (key m)) \<longrightarrow>
      step lib cfg (Emit h (MessagesUpsert ev)) w = w)"
proof (intro conjI impI)
  assume "upsert_type ev \<noteq> ''notify''"
  then show "on_messages_upsert cfg ev w = (Normal, w)"
    by (simp add: on_messages_upsert_def)
next
  assume "message m = None \<or> fromMe (key m)"
  then show "process_msg cfg m w = (Normal, w)"
    by (rule process_msg_skipped)
next
  show "process_msgs cfg ms w =
     process_msgs cfg (filter (\<lambda>m. message m \<noteq> None \<and> \<not> fromMe (key m)) ms) w"
    by (rule process_msgs_filter)
next
  assume a: "upsert_type ev \<noteq> ''notify'' \<or> (\<forall>m\<in>set (messages ev). message m = None \<or> fromMe (key m))"
  have "on_messages_upsert cfg ev w = (Normal, w)"
  proof (cases "upsert_type ev \<noteq> ''notify''")
    case True
    then show ?thesis by (simp add: on_messages_upsert_def)
  next
    case False
    with a have "filter (\<lambda>m. message m \<noteq> None \<and> \<not> fromMe (key m)) (messages ev) = []"
      by (auto simp: filter_empty_conv)
    then have "process_msgs cfg (messages ev) w = (Normal, w)"
      by (subst process_msgs_filter) simp
    then show ?thesis by (simp add: on_messages_upsert_def)
  qed
  then show "step lib cfg (Emit h (MessagesUpsert ev)) w = w"
    by (simp add: step_def handle_event_def settle_def)
qed

theorem skipped_messages_no_effect_witness:
  "step demo_library demo_config
     (Emit 0 (MessagesUpsert
        \<lparr>messages =
           [\<lparr>key = \<lparr>remoteJid = ''15550101@s.whatsapp.net'', fromMe = True, msg_id = ''A1''\<rparr>,
             message = Some \<lparr>conversation = Some ''.ping'', extendedText = None,
                              imageCaption = None, videoCaption = None\<rparr>\<rparr>,
            \<lparr>key = \<lparr>remoteJid = ''15550101@s.whatsapp.net'', fromMe = False, msg_id = ''A2''\<rparr>,
             message = None\<rparr>],
         upsert_type = ''notify''\<rparr>)) demo_world = demo_world \<and>
   step demo_library demo_config
     (Emit 0 (MessagesUpsert
        \<lparr>messages =
           [\<lparr>key = \<lparr>remoteJid = ''15550101@s.whatsapp.net'', fromMe = False, msg_id = ''A3''\<rparr>,
             message = Some \<lparr>conversation = Some ''.ping'', extendedText = None,
                              imageCaption = None, videoCaption = None\<rparr>\<rparr>],
         upsert_type = ''append''\<rparr>)) demo_world = demo_world"
proof -
  let ?m1 = "\<lparr>key = \<lparr>remoteJid = ''15550101@s.whatsapp.net'', fromMe = True, msg_id = ''A1''\<rparr>,
             message = Some \<lparr>conversation = Some ''.ping'', extendedText = None,
                              imageCaption = None, videoCaption = None\<rparr>\<rparr>"
  let ?m2 = "\<lparr>key = \<lparr>remoteJid = ''15550101@s.whatsapp.net'', fromMe = False, msg_id = ''A2''\<rparr>,
             message = None\<rparr>"
  let ?m3 = "\<lparr>key = \<lparr>remoteJid = ''15550101@s.whatsapp.net'', fromMe = False, msg_id = ''A3''\<rparr>,
             message = Some \<lparr>conversation = Some ''.ping'', extendedText = None,
                              imageCaption = None, videoCaption = None\<rparr>\<rparr>"
  let ?e1 = "\<lparr>messages = [?m1, ?m2], upsert_type = ''notify''\<rparr>"
  let ?e2 = "\<lparr>messages = [?m3], upsert_type = ''append''\<rparr>"
  have a: "upsert_type ?e1 \<noteq> ''notify'' \<or> (\<forall>m\<in>set (messages ?e1). message m = None \<or> fromMe (key m))"
    by simp
  have b: "upsert_type ?e2 \<noteq> ''notify'' \<or> (\<forall>m\<in>set (messages ?e2). message m = None \<or> fromMe (key m))"
    by simp
  note th = skipped_messages_no_effect [THEN conjunct2, THEN conjunct2, THEN conjunct2, rule_format]
  from th [of ?e1 demo_library demo_config 0 demo_world, OF a]
    th [of ?e2 demo_library demo_config 0 demo_world, OF b]
  show ?thesis by simp
qed

section \<open>Epochs and handles\<close>

lemma same_epoch_refl [simp]: "same_epoch w w"
  by (simp add: same_epoch_def)

lemma same_epoch_trans: "same_epoch w w1 \<Longrightarrow> same_epoch w1 w2 \<Longrightarrow> same_epoch w w2"
  by (simp add: same_epoch_def)

lemma console_log_epoch [simp]: "same_epoch w (console_log l w)"
  by (simp add: same_epoch_def console_log_def startup_notices_def)

lemma sock_call_epoch:
  "(\<And>h. \<not> is_startup (act h)) \<Longrightarrow> same_epoch w (snd (sock_call act w))"
  by (simp add: sock_call_def same_epoch_def startup_notices_def split: option.splits)

lemma and_then_epoch:
  assumes "same_epoch w (snd r)" and "\<And>w1. same_epoch w1 (snd (f w1))"
  shows "same_epoch w (snd (and_then r f))"
proof (cases r)
  case (Pair c w1)
  with assms(1) have "same_epoch w w1" by simp
  then have "same_epoch w (snd (f w1))" using assms(2) by (rule same_epoch_trans)
  with Pair assms(1) show ?thesis by (cases c) simp_all
qed

lemma dispatch_epoch: "same_epoch w (snd (dispatch cfg m body w))"
  by (simp add: dispatch_def Let_def sock_call_epoch split: list.splits)

lemma process_msg_epoch: "same_epoch w (snd (process_msg cfg m w))"
proof (cases "message m")
  case None
  then show ?thesis by (simp add: process_msg_def)
next
  case (Some c)
  let ?w0 = "console_log LogIncoming w"
  have r: "same_epoch w (snd (if AUTO_READ cfg then sock_call (\<lambda>h. ReadMessages h (key m)) ?w0
                              else (Normal, ?w0)))"
    using same_epoch_trans [OF console_log_epoch sock_call_epoch, of "\<lambda>h. ReadMessages h (key m)" w LogIncoming]
    by simp
  have t: "same_epoch w1
      (snd (if AUTO_TYPING cfg \<and> startsWith (body_of c) (PREFIX cfg)
            then sock_call (\<lambda>h. SendPresenceUpdate h ''composing'' (remoteJid (key m))) w1
            else (Normal, w1)))" for w1 :: "'a world"
    by (simp add: sock_call_epoch)
  have d: "same_epoch w2
      (snd (if \<not> startsWith (body_of c) (PREFIX cfg) then (Normal, w2)
            else dispatch cfg m (body_of c) w2))" for w2 :: "'a world"
    by (simp add: dispatch_epoch)
  show ?thesis
    using Some and_then_epoch [OF and_then_epoch [OF r t] d]
    by (simp add: process_msg_def Let_def)
qed

lemma process_msgs_epoch: "same_epoch w (snd (process_msgs cfg ms w))"
proof (induction ms arbitrary: w)
  case Nil
  show ?case by simp
next
  case (Cons m ms)
  show ?case
    using and_then_epoch [OF process_msg_epoch, of "process_msgs cfg ms" w cfg m] Cons.IH
    by simp
qed

lemma settle_epoch: "same_epoch w (snd r) \<Longrightarrow> same_epoch w (settle r)"
  by (cases r rule: prod.exhaust, cases "fst r")
     (auto simp: settle_def same_epoch_def console_log_def startup_notices_def)

lemma messages_upsert_epoch: "same_epoch w (settle (on_messages_upsert cfg b w))"
  by (rule settle_epoch) (simp add: on_messages_upsert_def process_msgs_epoch)

lemma open_first:
  assumes "connection u = Some ''open''" and "isFirstConnect w" and "sock w = Some k"
  shows "on_connection_update cfg u w =
     (Normal, w\<lparr>console := console w @ [LogConnected], isFirstConnect := False,
                 outbox := outbox w @ [SendMessage k (OWNER_NUMBER cfg @ ''@s.whatsapp.net'') StartupNotice None]\<rparr>)"
  using assms by (simp add: on_connection_update_def console_log_def sock_call_def)

lemma open_later:
  assumes "connection u = Some ''open''" and "\<not> isFirstConnect w"
  shows "on_connection_update cfg u w = (Normal, console_log LogConnected w)"
  using assms by (simp add: on_connection_update_def console_log_def)

lemma connection_update_other:
  assumes "connection u \<noteq> Some ''open''" and "connection u \<noteq> Some ''close''"
  shows "on_connection_update cfg u w = (Normal, w)"
  using assms by (simp add: on_connection_update_def)

lemma connection_update_handles:
  "sock (settle (on_connection_update cfg u w)) = sock w \<and>
   handles (settle (on_connection_update cfg u w)) = handles w"
  by (simp add: on_connection_update_def settle_def console_log_def sock_call_def rmSync_def
      setTimeout_startBot_def Let_def split: option.splits)

lemma call_startBot_supervisor:
  "isFirstConnect (call_startBot load cfg w) = isFirstConnect w \<and>
   outbox (call_startBot load cfg w) = outbox w \<and>
   timers (call_startBot load cfg w) = timers w"
proof -
  have "same_supervisor w (snd (getAuthState load cfg w))"
    by (rule getAuthState_supervisor)
  then show ?thesis
    by (cases "getAuthState load cfg w" rule: prod.exhaust, cases "fst (getAuthState load cfg w)")
       (auto simp: call_startBot_def startBot_def same_supervisor_def console_log_def)
qed

lemma call_startBot_handles:
  "(sock (call_startBot load cfg w) = sock w \<and> handles (call_startBot load cfg w) = handles w) \<or>
   (\<exists>st. handles (call_startBot load cfg w) = handles w @ [st] \<and>
         sock (call_startBot load cfg w) = Some (length (handles w)))"
proof -
  have "same_supervisor w (snd (getAuthState load cfg w))"
    by (rule getAuthState_supervisor)
  then show ?thesis
    by (cases "getAuthState load cfg w" rule: prod.exhaust, cases "fst (getAuthState load cfg w)")
       (auto simp: call_startBot_def startBot_def same_supervisor_def console_log_def)
qed

lemma step_sock_latest:
  assumes "sock_latest w"
  shows "sock_latest (step lib cfg s w)"
proof (cases s)
  case (Emit h ev)
  show ?thesis
  proof (cases ev)
    case (ConnectionUpdate u)
    with Emit assms connection_update_handles [of cfg u w] show ?thesis
      by (simp add: step_def handle_event_def sock_latest_def split: option.splits)
  next
    case CredsUpdate
    with Emit assms show ?thesis
      by (simp add: step_def handle_event_def sock_latest_def split: option.splits)
  next
    case (MessagesUpsert b)
    with Emit assms messages_upsert_epoch [of w cfg b] show ?thesis
      by (simp add: step_def handle_event_def sock_latest_def same_epoch_def split: option.splits)
  qed
next
  case (Timeout i)
  let ?w0 = "w\<lparr>timers := take i (timers w) @ drop (Suc i) (timers w)\<rparr>"
  from call_startBot_handles [of "lib_load lib" cfg ?w0] assms
  have "sock_latest (call_startBot (lib_load lib) cfg ?w0)"
    by (auto simp: sock_latest_def split: option.splits)
  with Timeout assms show ?thesis by (simp add: step_def)
qed

lemma fresh_sock_latest: "sock_latest (fresh d fs rs)"
  by (simp add: sock_latest_def fresh_def)

lemma main_sock_latest:
  assumes "sock_latest w"
  shows "sock_latest (main lib cfg w)"
proof -
  from call_startBot_handles [of "lib_load lib" cfg "console_log LogStarting w"] assms
  show ?thesis
    by (auto simp: main_def sock_latest_def console_log_def split: option.splits)
qed

lemma run_append: "run lib cfg (xs @ ys) w = run lib cfg ys (run lib cfg xs w)"
  by (induction xs arbitrary: w) simp_all

lemma run_sock_latest: "sock_latest w \<Longrightarrow> sock_latest (run lib cfg ss w)"
  by (induction ss arbitrary: w) (simp_all add: step_sock_latest)

lemma step_same_epoch:
  assumes "sock_latest w" and "\<not> is_wipe s"
  shows "startup_notices (step lib cfg s w) + (if isFirstConnect (step lib cfg s w) then 1 else 0) =
           startup_notices w + (if isFirstConnect w then 1 else 0) \<and>
         (isFirstConnect (step lib cfg s w) \<longrightarrow> isFirstConnect w)"
proof (cases s)
  case (Timeout i)
  let ?w0 = "w\<lparr>timers := take i (timers w) @ drop (Suc i) (timers w)\<rparr>"
  from call_startBot_supervisor [of "lib_load lib" cfg ?w0] Timeout show ?thesis
    by (simp add: step_def startup_notices_def)
next
  case (Emit h ev)
  show ?thesis
  proof (cases "h < length (handles w)")
    case False
    with Emit show ?thesis by (simp add: step_def)
  next
    case True
    with assms(1) obtain k where k: "sock w = Some k"
      by (auto simp: sock_latest_def split: option.splits)
    show ?thesis
    proof (cases ev)
      case CredsUpdate
      with Emit True show ?thesis
        by (simp add: step_def handle_event_def startup_notices_def)
    next
      case (MessagesUpsert b)
      with Emit True messages_upsert_epoch [of w cfg b] show ?thesis
        by (simp add: step_def handle_event_def same_epoch_def)
    next
      case (ConnectionUpdate u)
      then have e: "step lib cfg s w = settle (on_connection_update cfg u w)"
        using Emit True by (simp add: step_def handle_event_def)
      consider (first) "connection u = Some ''open''" "isFirstConnect w"
        | (later) "connection u = Some ''open''" "\<not> isFirstConnect w"
        | (close) "connection u = Some ''close''"
        | (other) "connection u \<noteq> Some ''open''" "connection u \<noteq> Some ''close''"
        by blast
      then show ?thesis
      proof cases
        case first
        then show ?thesis
          by (simp add: e open_first [OF first k] settle_def startup_notices_def)
      next
        case later
        then show ?thesis
          by (simp add: e open_later [OF later] settle_def startup_notices_def console_log_def)
      next
        case close
        from assms(2) Emit ConnectionUpdate close
        have n: "statusCode u \<noteq> Some DisconnectReason_loggedOut"
          by (simp add: is_wipe_def)
        show ?thesis
        proof (cases "statusCode u = Some DisconnectReason_restartRequired")
          case True
          then show ?thesis
            by (simp add: e close_restart_required [OF close] settle_def startup_notices_def)
        next
          case False
          then show ?thesis
            by (simp add: e close_other [OF close n] settle_def startup_notices_def)
        qed
      next
        case other
        then show ?thesis
          by (simp add: e connection_update_other [OF other] settle_def)
      qed
    qed
  qed
qed

lemma run_same_epoch:
  assumes "sock_latest w" and "\<forall>s\<in>set ss. \<not> is_wipe s"
  shows "startup_notices (run lib cfg ss w) + (if isFirstConnect (run lib cfg ss w) then 1 else 0) =
           startup_notices w + (if isFirstConnect w then 1 else 0) \<and>
         (isFirstConnect (run lib cfg ss w) \<longrightarrow> isFirstConnect w)"
  using assms
proof (induction ss arbitrary: w)
  case Nil
  show ?case by simp
next
  case (Cons s ss)
  from Cons.prems have a: "sock_latest (step lib cfg s w)" and b: "\<forall>s\<in>set ss. \<not> is_wipe s"
    and c: "\<not> is_wipe s"
    by (simp_all add: step_sock_latest)
  from Cons.IH [OF a b] step_same_epoch [OF Cons.prems(1) c, of lib cfg] show ?case
    by (simp split: if_splits)
qed

lemma step_timeout_keeps:
  "isFirstConnect (step lib cfg (Timeout i) w) = isFirstConnect w \<and>
   startup_notices (step lib cfg (Timeout i) w) = startup_notices w \<and>
   length (handles w) \<le> length (handles (step lib cfg (Timeout i) w))"
proof -
  let ?w0 = "w\<lparr>timers := take i (timers w) @ drop (Suc i) (timers w)\<rparr>"
  from call_startBot_supervisor [of "lib_load lib" cfg ?w0]
    call_startBot_handles [of "lib_load lib" cfg ?w0]
  show ?thesis
    by (auto simp: step_def startup_notices_def)
qed

lemma run_timeouts_keep:
  assumes "\<forall>s\<in>set ss. is_timeout s"
  shows "isFirstConnect (run lib cfg ss w) = isFirstConnect w \<and>
         startup_notices (run lib cfg ss w) = startup_notices w \<and>
         length (handles w) \<le> length (handles (run lib cfg ss w))"
  using assms
proof (induction ss arbitrary: w)
  case Nil
  show ?case by simp
next
  case (Cons s ss)
  from Cons.prems obtain i where s: "s = Timeout i"
    by (cases s) (simp_all add: is_timeout_def)
  from Cons.prems have "\<forall>s\<in>set ss. is_timeout s" by simp
  from Cons.IH [OF this, of "step lib cfg (Timeout i) w"] step_timeout_keeps [of lib cfg i w]
  show ?case by (simp add: s)
qed

lemma open_sends_when_first:
  assumes "sock_latest w" and "h < length (handles w)" and "connection u = Some ''open''"
    and "isFirstConnect w"
  shows "startup_notices (step lib cfg (Emit h (ConnectionUpdate u)) w) = startup_notices w + 1 \<and>
         \<not> isFirstConnect (step lib cfg (Emit h (ConnectionUpdate u)) w)"
proof -
  from assms(1,2) obtain k where k: "sock w = Some k"
    by (auto simp: sock_latest_def split: option.splits)
  show ?thesis
    using assms(2)
    by (simp add: step_def handle_event_def open_first [OF assms(3,4) k] settle_def
        startup_notices_def)
qed

text \<open>
  C4. An epoch is a run with no wipe in it, a wipe being a \<^verbatim>\<open>close\<close> update with the
  logged-out code. The worlds are those where \<^verbatim>\<open>sock\<close> is the handle made last, as it is
  from the start of the program on (lemmas \<open>fresh_sock_latest\<close>, \<open>main_sock_latest\<close>,
  \<open>run_sock_latest\<close>). In an epoch the startup notice is sent once if \<^verbatim>\<open>isFirstConnect\<close> was
  true at its start and an \<^verbatim>\<open>open\<close> update arrived (the flag is then false), and not at all
  otherwise. So open, then any steps with no wipe, then open again sends it once, at the
  first open. And a wipe that removes the directory (the removal does not throw), then the
  timers that restart the program, then an open on a handle that exists by then, sends it
  once more, whatever the flag was before the wipe. A logged-out \<^verbatim>\<open>close\<close> on which the
  removal throws wipes nothing and starts no epoch: the flag and the notices sent stay.
\<close>

theorem startup_notice_once_per_epoch:
  assumes "sock_latest w"
  shows "((\<forall>s\<in>set ss. \<not> is_wipe s) \<longrightarrow>
            startup_notices (run lib cfg ss w) =
              startup_notices w +
              (if isFirstConnect w \<and> \<not> isFirstConnect (run lib cfg ss w) then 1 else 0)) \<and>
         (h < length (handles w) \<and> isFirstConnect w \<and> connection u = Some ''open'' \<and>
          connection u' = Some ''open'' \<and> (\<forall>s\<in>set mid. \<not> is_wipe s) \<longrightarrow>
            startup_notices (step lib cfg (Emit h (ConnectionUpdate u)) w) = startup_notices w + 1 \<and>
            startup_notices
              (run lib cfg (Emit h (ConnectionUpdate u) # mid @ [Emit h' (ConnectionUpdate u')]) w) =
              startup_notices w + 1) \<and>
         (h < length (handles w) \<and>
          h' < length (handles (run lib cfg (Emit h (ConnectionUpdate u) # mid) w)) \<and>
          connection u = Some ''close'' \<and> statusCode u = Some DisconnectReason_loggedOut \<and>
          rm_ok w \<and> connection u' = Some ''open'' \<and> (\<forall>s\<in>set mid. is_timeout s) \<longrightarrow>
            startup_notices
              (run lib cfg (Emit h (ConnectionUpdate u) # mid @ [Emit h' (ConnectionUpdate u')]) w) =
              startup_notices w + 1) \<and>
         (connection u = Some ''close'' \<and> statusCode u = Some DisconnectReason_loggedOut \<and>
          \<not> rm_ok w \<longrightarrow>
            isFirstConnect (step lib cfg (Emit h (ConnectionUpdate u)) w) = isFirstConnect w \<and>
            startup_notices (step lib cfg (Emit h (ConnectionUpdate u)) w) = startup_notices w)"
proof (intro conjI impI)
  assume "\<forall>s\<in>set ss. \<not> is_wipe s"
  from run_same_epoch [OF assms this, of lib cfg]
  show "startup_notices (run lib cfg ss w) =
      startup_notices w + (if isFirstConnect w \<and> \<not> isFirstConnect (run lib cfg ss w) then 1 else 0)"
    by (simp split: if_splits)
next
  assume a: "h < length (handles w) \<and> isFirstConnect w \<and> connection u = Some ''open'' \<and>
          connection u' = Some ''open'' \<and> (\<forall>s\<in>set mid. \<not> is_wipe s)"
  let ?w1 = "step lib cfg (Emit h (ConnectionUpdate u)) w"
  from a open_sends_when_first [OF assms, of h u lib cfg]
  have o: "startup_notices ?w1 = startup_notices w + 1" and f: "\<not> isFirstConnect ?w1"
    by simp_all
  from o show "startup_notices ?w1 = startup_notices w + 1" .
  have l: "sock_latest ?w1" using assms by (rule step_sock_latest)
  from a have n: "\<forall>s\<in>set (mid @ [Emit h' (ConnectionUpdate u')]). \<not> is_wipe s"
    by (simp add: is_wipe_def)
  from run_same_epoch [OF l n, of lib cfg] f
  have "startup_notices (run lib cfg (mid @ [Emit h' (ConnectionUpdate u')]) ?w1) = startup_notices ?w1"
    by (simp split: if_splits)
  with o show "startup_notices
      (run lib cfg (Emit h (ConnectionUpdate u) # mid @ [Emit h' (ConnectionUpdate u')]) w) =
      startup_notices w + 1"
    by simp
next
  assume a: "h < length (handles w) \<and>
          h' < length (handles (run lib cfg (Emit h (ConnectionUpdate u) # mid) w)) \<and>
          connection u = Some ''close'' \<and> statusCode u = Some DisconnectReason_loggedOut \<and>
          rm_ok w \<and> connection u' = Some ''open'' \<and> (\<forall>s\<in>set mid. is_timeout s)"
  let ?w1 = "step lib cfg (Emit h (ConnectionUpdate u)) w"
  let ?w2 = "run lib cfg mid ?w1"
  from a have e: "?w1 = settle (on_connection_update cfg u w)"
    by (simp add: step_def handle_event_def)
  from a have c: "connection u = Some ''close''" and d: "statusCode u = Some DisconnectReason_loggedOut"
    and r: "rm_ok w"
    by simp_all
  have w1: "isFirstConnect ?w1" "startup_notices ?w1 = startup_notices w" "handles ?w1 = handles w"
    by (simp_all add: e close_logged_out [OF c d r] settle_def startup_notices_def)
  from a run_timeouts_keep [of mid lib cfg ?w1] w1
  have w2: "isFirstConnect ?w2" "startup_notices ?w2 = startup_notices w" "h' < length (handles ?w2)"
    by simp_all
  have "sock_latest ?w2"
    using assms by (intro run_sock_latest step_sock_latest)
  from open_sends_when_first [OF this w2(3) _ w2(1), of u' lib cfg] a w2(2)
  have "startup_notices (step lib cfg (Emit h' (ConnectionUpdate u')) ?w2) = startup_notices w + 1"
    by simp
  then show "startup_notices
      (run lib cfg (Emit h (ConnectionUpdate u) # mid @ [Emit h' (ConnectionUpdate u')]) w) =
      startup_notices w + 1"
    by (simp add: run_append)
next
  assume a: "connection u = Some ''close'' \<and> statusCode u = Some DisconnectReason_loggedOut \<and>
          \<not> rm_ok w"
  then obtain d d' where d: "auth_dir w = Some d" "fs_rm (fsys w) d = Some d'"
    by (auto simp: rm_ok_def split: option.splits)
  from a have c: "connection u = Some ''close''" and l: "statusCode u = Some DisconnectReason_loggedOut"
    by simp_all
  show "isFirstConnect (step lib cfg (Emit h (ConnectionUpdate u)) w) = isFirstConnect w"
    and "startup_notices (step lib cfg (Emit h (ConnectionUpdate u)) w) = startup_notices w"
    by (simp_all add: step_def handle_event_def close_logged_out_thrown [OF c l d] settle_def
        console_log_def startup_notices_def)
qed

lemma demo_world_latest: "sock_latest demo_world"
  by (simp add: demo_world_eq sock_latest_def)

lemma demo_opened:
  "step demo_library demo_config
     (Emit 0 (ConnectionUpdate \<lparr>connection = Some ''open'', statusCode = None\<rparr>)) demo_world =
   demo_world\<lparr>isFirstConnect := False,
     outbox := [SendMessage 0 ''15550100@s.whatsapp.net'' StartupNotice None],
     console := [LogStarting, LogUsingLocal, LogConnected]\<rparr>"
  by (simp add: demo_world_eq step_def handle_event_def settle_def on_connection_update_def
      console_log_def sock_call_def demo_config_def)

lemma demo_reacquired:
  "handles (run demo_library demo_config
     [Emit 0 (ConnectionUpdate \<lparr>connection = Some ''close'', statusCode = Some 401\<rparr>), Timeout 0]
     (demo_world\<lparr>isFirstConnect := False,
        outbox := [SendMessage 0 ''15550100@s.whatsapp.net'' StartupNotice None],
        console := [LogStarting, LogUsingLocal, LogConnected]\<rparr>)) = [''{}'', ''{2}'']"
  by (simp add: demo_world_eq step_def handle_event_def settle_def on_connection_update_def
      DisconnectReason_loggedOut_def console_log_def rmSync_def setTimeout_startBot_def
      call_startBot_def startBot_def getAuthState_def hasLocalSession_iff fetch_loop_Cons
      fetch_value_def fetchSessionFromManager_def file_set_def saveSessionLocally_def save_try_def
      ensure_dir_def writeFileSync_def put_file_def file_key_def useMultiFileAuthState_def
      demo_library_def demo_load_def healthy_def)

theorem startup_notice_once_per_epoch_witness:
  "sock_latest demo_world \<and> startup_notices demo_world = 0 \<and>
   startup_notices (run demo_library demo_config
     [Emit 0 (ConnectionUpdate \<lparr>connection = Some ''open'', statusCode = None\<rparr>),
      Emit 0 (ConnectionUpdate \<lparr>connection = Some ''close'', statusCode = Some 428\<rparr>),
      Timeout 0,
      Emit 1 (ConnectionUpdate \<lparr>connection = Some ''open'', statusCode = None\<rparr>)] demo_world) = 1 \<and>
   startup_notices (run demo_library demo_config
     [Emit 0 (ConnectionUpdate \<lparr>connection = Some ''open'', statusCode = None\<rparr>),
      Emit 0 (ConnectionUpdate \<lparr>connection = Some ''close'', statusCode = Some 401\<rparr>),
      Timeout 0,
      Emit 1 (ConnectionUpdate \<lparr>connection = Some ''open'', statusCode = None\<rparr>)] demo_world) = 2"
proof -
  let ?open = "\<lparr>connection = Some ''open'', statusCode = None\<rparr>"
  let ?drop = "\<lparr>connection = Some ''close'', statusCode = Some 428\<rparr>"
  let ?out = "\<lparr>connection = Some ''close'', statusCode = Some 401\<rparr>"
  let ?w1 = "step demo_library demo_config (Emit 0 (ConnectionUpdate ?open)) demo_world"
  have z: "startup_notices demo_world = 0"
    by (simp add: demo_world_eq startup_notices_def)
  have a: "0 < length (handles demo_world) \<and> isFirstConnect demo_world \<and>
      connection ?open = Some ''open'' \<and> connection ?open = Some ''open'' \<and>
      (\<forall>s\<in>set [Emit 0 (ConnectionUpdate ?drop), Timeout 0]. \<not> is_wipe s)"
    by (simp add: demo_world_eq is_wipe_def DisconnectReason_loggedOut_def)
  note same = startup_notice_once_per_epoch [OF demo_world_latest, THEN conjunct2, THEN conjunct1,
      rule_format, where mid = "[Emit 0 (ConnectionUpdate ?drop), Timeout 0]" and h' = 1, OF a]
  have l: "sock_latest ?w1"
    using demo_world_latest by (rule step_sock_latest)
  have b: "0 < length (handles ?w1) \<and>
      1 < length (handles (run demo_library demo_config (Emit 0 (ConnectionUpdate ?out) # [Timeout 0]) ?w1)) \<and>
      connection ?out = Some ''close'' \<and> statusCode ?out = Some DisconnectReason_loggedOut \<and>
      rm_ok ?w1 \<and> connection ?open = Some ''open'' \<and> (\<forall>s\<in>set [Timeout 0]. is_timeout s)"
    unfolding demo_opened demo_reacquired
    by (simp add: demo_world_eq is_timeout_def DisconnectReason_loggedOut_def rm_ok_def healthy_def)
  note again = startup_notice_once_per_epoch [OF l, THEN conjunct2, THEN conjunct2,
      THEN conjunct1, rule_format, where mid = "[Timeout 0]" and h' = 1, OF b]
  from same again z demo_world_latest show ?thesis
    by simp
qed

text \<open>
  C7, as amended. \<^verbatim>\<open>sock\<close> is undefined until the first handle is made and from then on it
  is the handle made last, from the start of the program through every run: a timer that
  fires either makes no handle or makes one new handle and stores it in \<^verbatim>\<open>sock\<close>, and no
  event changes \<^verbatim>\<open>sock\<close> or the handles. The
  subscriptions of the older handles stay: a connection or message event is handled the same
  way whichever handle emits it, on the shared state and through \<^verbatim>\<open>sock\<close>.
\<close>

theorem superseded_handles_still_handled:
  "sock_latest (fresh d fs rs :: 'a world) \<and>
   (sock_latest w \<longrightarrow> sock_latest (main lib cfg w)) \<and>
   (sock_latest w \<longrightarrow> sock_latest (run lib cfg ss w)) \<and>
   ((sock (step lib cfg (Timeout i) w) = sock w \<and>
     handles (step lib cfg (Timeout i) w) = handles w) \<or>
    (\<exists>st. handles (step lib cfg (Timeout i) w) = handles w @ [st] \<and>
          sock (step lib cfg (Timeout i) w) = Some (length (handles w)))) \<and>
   (sock (step lib cfg (Emit h ev) w) = sock w \<and>
    handles (step lib cfg (Emit h ev) (w :: 'a world)) = handles w) \<and>
   (h < length (handles w) \<and> h' < length (handles w) \<and> ev \<noteq> CredsUpdate \<longrightarrow>
      step lib cfg (Emit h ev) w = step lib cfg (Emit h' ev) w)"
proof (intro conjI impI)
  show "sock_latest (fresh d fs rs :: 'a world)"
    by (rule fresh_sock_latest)
  show "sock_latest (main lib cfg w)" if "sock_latest w"
    using that by (rule main_sock_latest)
  show "sock_latest (run lib cfg ss w)" if "sock_latest w"
    using that by (rule run_sock_latest)
  let ?w0 = "w\<lparr>timers := take i (timers w) @ drop (Suc i) (timers w)\<rparr>"
  from call_startBot_handles [of "lib_load lib" cfg ?w0]
  show "(sock (step lib cfg (Timeout i) w) = sock w \<and>
     handles (step lib cfg (Timeout i) w) = handles w) \<or>
    (\<exists>st. handles (step lib cfg (Timeout i) w) = handles w @ [st] \<and>
          sock (step lib cfg (Timeout i) w) = Some (length (handles w)))"
    by (auto simp: step_def)
  show "sock (step lib cfg (Emit h ev) w) = sock w"
    and "handles (step lib cfg (Emit h ev) w) = handles w"
    using connection_update_handles [of cfg _ w] messages_upsert_epoch [of w cfg]
    by (auto simp: step_def handle_event_def same_epoch_def split: event.splits)
  show "step lib cfg (Emit h ev) w = step lib cfg (Emit h' ev) w"
    if "h < length (handles w) \<and> h' < length (handles w) \<and> ev \<noteq> CredsUpdate"
    using that by (simp add: step_def handle_event_def split: event.splits)
qed

theorem superseded_handles_still_handled_witness:
  "sock_latest (run demo_library demo_config
     [Emit 0 (ConnectionUpdate \<lparr>connection = Some ''close'', statusCode = Some 428\<rparr>), Timeout 0]
     demo_world) \<and>
   handles (run demo_library demo_config
     [Emit 0 (ConnectionUpdate \<lparr>connection = Some ''close'', statusCode = Some 428\<rparr>), Timeout 0]
     demo_world) = [''{}'', ''{}''] \<and>
   step demo_library demo_config (Emit 0 (MessagesUpsert demo_ping))
     (run demo_library demo_config
       [Emit 0 (ConnectionUpdate \<lparr>connection = Some ''close'', statusCode = Some 428\<rparr>), Timeout 0]
       demo_world) =
   step demo_library demo_config (Emit 1 (MessagesUpsert demo_ping))
     (run demo_library demo_config
       [Emit 0 (ConnectionUpdate \<lparr>connection = Some ''close'', statusCode = Some 428\<rparr>), Timeout 0]
       demo_world)"
proof -
  let ?drop = "\<lparr>connection = Some ''close'', statusCode = Some 428\<rparr>"
  let ?w2 = "run demo_library demo_config [Emit 0 (ConnectionUpdate ?drop), Timeout 0] demo_world"
  have h: "handles ?w2 = [''{}'', ''{}'']"
    by (simp add: demo_world_eq step_def handle_event_def settle_def on_connection_update_def
      DisconnectReason_loggedOut_def DisconnectReason_restartRequired_def console_log_def
      setTimeout_startBot_def call_startBot_def startBot_def getAuthState_def hasLocalSession_iff
      useMultiFileAuthState_def demo_library_def demo_load_def demo_config_def healthy_def)
  then have a: "0 < length (handles ?w2) \<and> 1 < length (handles ?w2) \<and>
      MessagesUpsert demo_ping \<noteq> CredsUpdate"
    by simp
  note th = superseded_handles_still_handled
    [where w = demo_world and lib = demo_library and cfg = demo_config
       and ss = "[Emit 0 (ConnectionUpdate ?drop), Timeout 0]", THEN conjunct2, THEN conjunct2,
     THEN conjunct1, rule_format, OF demo_world_latest]
  note eq = superseded_handles_still_handled
    [where w = ?w2 and lib = demo_library and cfg = demo_config and h = 0 and h' = 1
       and ev = "MessagesUpsert demo_ping", THEN conjunct2, THEN conjunct2, THEN conjunct2,
     THEN conjunct2, THEN conjunct2, rule_format, OF a]
  from th h eq show ?thesis by simp
qed

text \<open>
  C7 as stated fails. After a dropped connection and the reopening, \<^verbatim>\<open>sock\<close> is handle 1
  and handle 0 is superseded. A message that then arrives on handle 0 is not ignored: it is
  marked read, a typing presence is sent and the command is answered, all through handle 1.
\<close>

theorem stale_handle_event_is_processed:
  "sock (run demo_library demo_config
     [Emit 0 (ConnectionUpdate \<lparr>connection = Some ''close'', statusCode = Some 428\<rparr>), Timeout 0]
     demo_world) = Some 1 \<and>
   outbox (run demo_library demo_config
     [Emit 0 (ConnectionUpdate \<lparr>connection = Some ''close'', statusCode = Some 428\<rparr>), Timeout 0]
     demo_world) = [] \<and>
   outbox (run demo_library demo_config
     [Emit 0 (ConnectionUpdate \<lparr>connection = Some ''close'', statusCode = Some 428\<rparr>), Timeout 0,
      Emit 0 (MessagesUpsert demo_ping)]
     demo_world) =
     [ReadMessages 1 \<lparr>remoteJid = ''15550101@s.whatsapp.net'', fromMe = False, msg_id = ''A3''\<rparr>,
      SendPresenceUpdate 1 ''composing'' ''15550101@s.whatsapp.net'',
      SendMessage 1 ''15550101@s.whatsapp.net'' Pong
        (Some \<lparr>remoteJid = ''15550101@s.whatsapp.net'', fromMe = False, msg_id = ''A3''\<rparr>)]"
  by (simp add: demo_world_eq step_def handle_event_def settle_def on_connection_update_def
      DisconnectReason_loggedOut_def DisconnectReason_restartRequired_def console_log_def
      setTimeout_startBot_def call_startBot_def startBot_def getAuthState_def hasLocalSession_iff
      useMultiFileAuthState_def demo_library_def demo_load_def demo_config_def demo_ping_def
      healthy_def
      on_messages_upsert_def process_msg_def body_of_def startsWith_def sock_call_def
      dispatch_def trim_def is_ws_def toLowerCase_def lower_char_def Let_def)


end
